theory Spec2Isabelle
  imports Complex_Main
begin

section \<open>Values, errors and records\<close>

text \<open>
  The two scripts under verification are \<^verbatim>\<open>src/validation/validate_calculations.py\<close>
  (functions over a list of measurement dictionaries) and
  \<^verbatim>\<open>src/analysis/extract_real_data_only.py\<close> (methods over a pandas data frame).

  Modelling conventions.
  \<^item> Python and numpy floats are modelled by \<^typ>\<open>real\<close>: rounding is not modelled.
  \<^item> A Python exception is a value \<open>Inl e\<close> of the sum type \<open>py_error + 'a\<close>.
  \<^item> A numpy division by zero does not raise: it completes with \<open>inf\<close> or \<open>nan\<close>.
    Such a result is the value \<open>NonFinite\<close> of \<open>npfloat\<close>.
  \<^item> A dictionary whose iteration order matters is an association list in insertion order.
\<close>

datatype py_error = KeyError | ZeroDivisionError | ValueError | AttributeError

datatype npfloat = Finite real | NonFinite

text \<open>
  One measurement dictionary of the benchmark file. The five metric keys are always
  present in the input schema, so a default that the code passes to \<^verbatim>\<open>get\<close> for one of
  them is never taken and indexing one of them never raises; \<^verbatim>\<open>model_name\<close>,
  \<^verbatim>\<open>core_count\<close>, \<^verbatim>\<open>batch_size\<close> and \<^verbatim>\<open>is_valid\<close> are optional keys, \<open>None\<close> when
  the key is absent. The key \<^verbatim>\<open>timestamp\<close> is left out: no function below computes
  with it.
\<close>

record measurement =
  model_name :: "string option"
  core_count :: "int option"
  batch_size :: "int option"
  is_valid :: "bool option"
  latency_ms :: real
  throughput_fps :: real
  power_consumption_watts :: real
  efficiency_fps_per_watt :: real
  temperature_celsius :: real

text \<open>\<^verbatim>\<open>d.get(key, default)\<close> on an optional key.\<close>

definition dict_get :: "'a option \<Rightarrow> 'a \<Rightarrow> 'a" where
  "dict_get v dflt = (case v of None \<Rightarrow> dflt | Some x \<Rightarrow> x)"

text \<open>Python's \<^verbatim>\<open>enumerate\<close>, starting at a given index.\<close>

fun py_enumerate :: "nat \<Rightarrow> 'a list \<Rightarrow> (nat \<times> 'a) list" where
  "py_enumerate i [] = []"
| "py_enumerate i (x # xs) = (i, x) # py_enumerate (Suc i) xs"

subsection \<open>Strings\<close>

text \<open>\<^verbatim>\<open>s.startswith(p)\<close> and the substring test \<^verbatim>\<open>p in s\<close>.\<close>

fun starts_with :: "string \<Rightarrow> string \<Rightarrow> bool" where
  "starts_with [] s = True"
| "starts_with (p # ps) [] = False"
| "starts_with (p # ps) (c # cs) = (p = c \<and> starts_with ps cs)"

fun str_contains :: "string \<Rightarrow> string \<Rightarrow> bool" where
  "str_contains p [] = (p = [])"
| "str_contains p (c # cs) = (starts_with p (c # cs) \<or> str_contains p cs)"

section \<open>Record loader\<close>

subsection \<open>extract\_real\_data\_only.py: core count and batch size from the label\<close>

definition extract_cores_from_config :: "string \<Rightarrow> int" where
  "extract_cores_from_config config_name =
     (if str_contains ''cores1'' config_name then 1
      else if str_contains ''cores2'' config_name then 2
      else if str_contains ''cores4'' config_name then 4
      else 1)"

definition extract_batch_from_config :: "string \<Rightarrow> int" where
  "extract_batch_from_config config_name =
     (if str_contains ''batch1'' config_name then 1
      else if str_contains ''batch4'' config_name then 4
      else if str_contains ''batch8'' config_name then 8
      else if str_contains ''batch16'' config_name then 16
      else 1)"

subsection \<open>validate\_calculations.py: extract\_all\_measurements\<close>

text \<open>
  The benchmark document: the optional key \<^verbatim>\<open>detailed_results\<close> maps a model name to a
  dictionary from configuration name to a configuration entry, whose key
  \<^verbatim>\<open>measurements\<close> is optional; \<^verbatim>\<open>summary_statistics.total_measurements\<close> is optional.
\<close>

record benchmark_data =
  detailed_results :: "(string \<times> (string \<times> measurement list option) list) list option"
  summary_total_measurements :: "int option"

definition config_measurements :: "measurement list option \<Rightarrow> measurement list" where
  "config_measurements config_data =
     (case config_data of
        None \<Rightarrow> []
      | Some ms \<Rightarrow> filter (\<lambda>m. dict_get (is_valid m) True) ms)"

definition extract_all_measurements :: "benchmark_data \<Rightarrow> measurement list" where
  "extract_all_measurements d =
     (case detailed_results d of
        None \<Rightarrow> []
      | Some models \<Rightarrow>
          concat (map (\<lambda>(model, model_results).
                    concat (map (\<lambda>(config, config_data). config_measurements config_data)
                              model_results))
                  models))"

section \<open>Consistency validator (validate\_calculations.py)\<close>

record failed_measurement =
  measurement_index :: nat
  test :: string
  expected :: real
  actual :: real
  abs_error :: real

record validation_results =
  total_measurements :: nat
  consistency_checks :: nat
  consistency_failures :: nat
  failed_measurements :: "failed_measurement list"

text \<open>The body of the loop of \<^verbatim>\<open>validate_mathematical_consistency\<close> for one measurement.\<close>

definition efficiency_step :: "nat \<Rightarrow> measurement \<Rightarrow> validation_results \<Rightarrow> validation_results" where
  "efficiency_step i m vr =
     (let throughput = throughput_fps m;
          power = power_consumption_watts m;
          efficiency = efficiency_fps_per_watt m;
          expected_efficiency = (if power > 0 then throughput / power else 0);
          efficiency_error = \<bar>efficiency - expected_efficiency\<bar>;
          efficiency_tolerance = 0.01
      in if efficiency_error > efficiency_tolerance \<and> efficiency > 0
         then vr\<lparr>consistency_failures := consistency_failures vr + 1,
                 failed_measurements := failed_measurements vr @
                   [\<lparr>measurement_index = i, test = ''efficiency_calculation'',
                     expected = expected_efficiency, actual = efficiency,
                     abs_error = efficiency_error\<rparr>]\<rparr>
         else vr)"

definition throughput_step :: "nat \<Rightarrow> measurement \<Rightarrow> validation_results \<Rightarrow> validation_results" where
  "throughput_step i m vr =
     (let throughput = throughput_fps m;
          latency = latency_ms m;
          batch = real_of_int (dict_get (batch_size m) 1)
      in if latency > 0
         then (let expected_throughput = batch / (latency / 1000);
                   throughput_error = \<bar>throughput - expected_throughput\<bar>;
                   throughput_tolerance = throughput * 0.05
               in if throughput_error > throughput_tolerance
                  then vr\<lparr>consistency_failures := consistency_failures vr + 1,
                          failed_measurements := failed_measurements vr @
                            [\<lparr>measurement_index = i, test = ''throughput_calculation'',
                              expected = expected_throughput, actual = throughput,
                              abs_error = throughput_error\<rparr>]\<rparr>
                  else vr)
         else vr)"

definition consistency_step :: "validation_results \<Rightarrow> nat \<times> measurement \<Rightarrow> validation_results" where
  "consistency_step vr im =
     throughput_step (fst im) (snd im)
       (efficiency_step (fst im) (snd im)
          (vr\<lparr>consistency_checks := consistency_checks vr + 1\<rparr>))"

definition consistency_loop :: "measurement list \<Rightarrow> validation_results" where
  "consistency_loop measurements =
     foldl consistency_step
       \<lparr>total_measurements = length measurements, consistency_checks = 0,
        consistency_failures = 0, failed_measurements = []\<rparr>
       (py_enumerate 0 measurements)"

text \<open>
  \<^verbatim>\<open>(checks - failures) / checks * 100\<close>: the counters are Python integers, so the
  difference may be negative and a zero divisor raises.
\<close>

definition success_rate :: "validation_results \<Rightarrow> py_error + real" where
  "success_rate vr =
     (if consistency_checks vr = 0 then Inl ZeroDivisionError
      else Inr (real_of_int (int (consistency_checks vr) - int (consistency_failures vr))
                / real (consistency_checks vr) * 100))"

definition validate_mathematical_consistency :: "measurement list \<Rightarrow> py_error + validation_results" where
  "validate_mathematical_consistency measurements =
     (let vr = consistency_loop measurements
      in case success_rate vr of
           Inl e \<Rightarrow> Inl e
         | Inr rate \<Rightarrow> Inr vr)"

section \<open>Data frame rows (extract\_real\_data\_only.py)\<close>

text \<open>
  One row of \<^verbatim>\<open>measurements_df\<close>, as \<^verbatim>\<open>extract_performance_metrics\<close> builds it. The
  fields carry the prefix \<open>r_\<close> to keep them apart from the keys of the raw dictionary.
  Every metric of a row is a number, so \<^verbatim>\<open>dropna\<close> keeps a whole column.
\<close>

record df_row =
  r_model :: string
  r_configuration :: string
  r_latency_ms :: real
  r_throughput_fps :: real
  r_power_watts :: real
  r_efficiency_fps_per_watt :: real
  r_temperature_celsius :: real
  r_cores :: int
  r_batch_size :: int

definition make_row :: "string \<Rightarrow> string \<Rightarrow> measurement \<Rightarrow> df_row" where
  "make_row model config m =
     \<lparr>r_model = model, r_configuration = config,
      r_latency_ms = latency_ms m, r_throughput_fps = throughput_fps m,
      r_power_watts = power_consumption_watts m,
      r_efficiency_fps_per_watt = efficiency_fps_per_watt m,
      r_temperature_celsius = temperature_celsius m,
      r_cores = extract_cores_from_config config,
      r_batch_size = extract_batch_from_config config\<rparr>"

text \<open>
  \<^verbatim>\<open>extract_performance_metrics\<close>: \<open>None\<close> is the state in which \<^verbatim>\<open>raw_data\<close> is
  \<^verbatim>\<open>None\<close> or empty, where the method raises \<^verbatim>\<open>ValueError\<close>.
\<close>

definition extract_performance_metrics :: "benchmark_data option \<Rightarrow> py_error + df_row list" where
  "extract_performance_metrics raw_data =
     (case raw_data of
        None \<Rightarrow> Inl ValueError
      | Some d \<Rightarrow>
          Inr (concat (map (\<lambda>(model, model_data).
                 concat (map (\<lambda>(config, config_data).
                           map (make_row model config) (config_measurements config_data))
                         model_data))
               (dict_get (detailed_results d) []))))"

section \<open>Measurement validator (extract\_real\_data\_only.py)\<close>

datatype failed_validation =
    Mathematical_consistency nat real real real
  | Invalid_latency nat real
  | Invalid_throughput nat real

record check_counters =
  mathematical_consistency :: nat
  physical_validity :: nat
  range_validation :: nat

record measurement_validation =
  mv_total_measurements :: nat
  validation_checks :: check_counters
  failed_validations :: "failed_validation list"

record validation_percentages =
  pct_mathematical_consistency :: real
  pct_physical_validity :: real
  pct_range_validation :: real

text \<open>
  The three blocks of the loop body of \<^verbatim>\<open>validate_measurements\<close>. A failed validation is
  \<open>Mathematical_consistency index expected actual difference\<close>, or
  \<open>Invalid_latency index value\<close>, or \<open>Invalid_throughput index value\<close>.
\<close>

definition consistency_block :: "nat \<Rightarrow> df_row \<Rightarrow> measurement_validation \<Rightarrow> measurement_validation" where
  "consistency_block idx row v =
     (let expected_efficiency =
            (if r_power_watts row > 0 then r_throughput_fps row / r_power_watts row else 0);
          efficiency_diff = \<bar>expected_efficiency - r_efficiency_fps_per_watt row\<bar>;
          tolerance = max 0.001 (r_efficiency_fps_per_watt row * 0.001)
      in if efficiency_diff \<le> tolerance
         then v\<lparr>validation_checks := (validation_checks v)
                  \<lparr>mathematical_consistency := mathematical_consistency (validation_checks v) + 1\<rparr>\<rparr>
         else v\<lparr>failed_validations := failed_validations v @
                  [Mathematical_consistency idx expected_efficiency
                     (r_efficiency_fps_per_watt row) efficiency_diff]\<rparr>)"

definition latency_check :: "nat \<Rightarrow> df_row \<Rightarrow> measurement_validation \<Rightarrow> measurement_validation" where
  "latency_check idx row v =
     (if \<not> (0.1 \<le> r_latency_ms row \<and> r_latency_ms row \<le> 1000)
      then v\<lparr>failed_validations := failed_validations v @ [Invalid_latency idx (r_latency_ms row)]\<rparr>
      else v)"

definition throughput_check :: "nat \<Rightarrow> df_row \<Rightarrow> measurement_validation \<Rightarrow> measurement_validation" where
  "throughput_check idx row v =
     (if \<not> (1 \<le> r_throughput_fps row \<and> r_throughput_fps row \<le> 10000)
      then v\<lparr>failed_validations := failed_validations v @ [Invalid_throughput idx (r_throughput_fps row)]\<rparr>
      else v)"

definition physical_valid :: "df_row \<Rightarrow> bool" where
  "physical_valid row =
     ((0.1 \<le> r_latency_ms row \<and> r_latency_ms row \<le> 1000)
      \<and> (1 \<le> r_throughput_fps row \<and> r_throughput_fps row \<le> 10000))"

definition physical_block :: "nat \<Rightarrow> df_row \<Rightarrow> measurement_validation \<Rightarrow> measurement_validation" where
  "physical_block idx row v =
     (let v1 = throughput_check idx row (latency_check idx row v)
      in if physical_valid row
         then v1\<lparr>validation_checks := (validation_checks v1)
                   \<lparr>physical_validity := physical_validity (validation_checks v1) + 1\<rparr>\<rparr>
         else v1)"

definition range_block :: "df_row \<Rightarrow> measurement_validation \<Rightarrow> measurement_validation" where
  "range_block row v =
     (if (10 \<le> r_power_watts row \<and> r_power_watts row \<le> 100)
         \<and> (20 \<le> r_temperature_celsius row \<and> r_temperature_celsius row \<le> 100)
      then v\<lparr>validation_checks := (validation_checks v)
               \<lparr>range_validation := range_validation (validation_checks v) + 1\<rparr>\<rparr>
      else v)"

definition validate_row :: "measurement_validation \<Rightarrow> nat \<times> df_row \<Rightarrow> measurement_validation" where
  "validate_row v ir =
     range_block (snd ir) (physical_block (fst ir) (snd ir) (consistency_block (fst ir) (snd ir) v))"

definition validation_loop :: "df_row list \<Rightarrow> measurement_validation" where
  "validation_loop rows =
     foldl validate_row
       \<lparr>mv_total_measurements = length rows,
        validation_checks = \<lparr>mathematical_consistency = 0, physical_validity = 0, range_validation = 0\<rparr>,
        failed_validations = []\<rparr>
       (py_enumerate 0 rows)"

text \<open>
  Python's \<^verbatim>\<open>(count / total) * 100\<close> on integers: a zero total raises. The argument
  of \<^verbatim>\<open>validate_measurements\<close> is the attribute \<^verbatim>\<open>measurements_df\<close>: the constructor does
  not set it, so before \<^verbatim>\<open>extract_performance_metrics\<close> has run (\<open>None\<close>) reading it
  raises \<^verbatim>\<open>AttributeError\<close>; afterwards it is a data frame and never \<^verbatim>\<open>None\<close>.
\<close>

definition percentage :: "nat \<Rightarrow> nat \<Rightarrow> py_error + real" where
  "percentage c n = (if n = 0 then Inl ZeroDivisionError else Inr (real c / real n * 100))"

definition validate_measurements ::
  "df_row list option \<Rightarrow> py_error + (measurement_validation \<times> validation_percentages)" where
  "validate_measurements measurements_df =
     (case measurements_df of
        None \<Rightarrow> Inl AttributeError
      | Some rows \<Rightarrow>
          (let v = validation_loop rows; total_measurements = mv_total_measurements v
           in case percentage (mathematical_consistency (validation_checks v)) total_measurements of
                Inl e \<Rightarrow> Inl e
              | Inr p1 \<Rightarrow>
                 (case percentage (physical_validity (validation_checks v)) total_measurements of
                    Inl e \<Rightarrow> Inl e
                  | Inr p2 \<Rightarrow>
                     (case percentage (range_validation (validation_checks v)) total_measurements of
                        Inl e \<Rightarrow> Inl e
                      | Inr p3 \<Rightarrow>
                          Inr (v, \<lparr>pct_mathematical_consistency = p1,
                                   pct_physical_validity = p2,
                                   pct_range_validation = p3\<rparr>)))))"

section \<open>Library functions of numpy, pandas and scipy\<close>

text \<open>
  \<^verbatim>\<open>numpy.mean\<close> and \<^verbatim>\<open>Series.mean\<close>. Every call below passes a non-empty list, where
  the result is finite.
\<close>

definition np_mean :: "real list \<Rightarrow> real" where
  "np_mean xs = sum_list xs / real (length xs)"

text \<open>
  The standard deviation with one degree of freedom subtracted: \<^verbatim>\<open>numpy.std(xs, ddof=1)\<close>
  and \<^verbatim>\<open>Series.std()\<close>, whose default is \<^verbatim>\<open>ddof=1\<close>. \<open>std_ddof1\<close> is its value for at
  least two samples; for fewer the libraries return \<open>nan\<close> and do not raise.
\<close>

definition std_ddof1 :: "real list \<Rightarrow> real" where
  "std_ddof1 xs =
     sqrt (sum_list (map (\<lambda>x. (x - np_mean xs)\<^sup>2) xs) / (real (length xs) - 1))"

definition np_std_ddof1 :: "real list \<Rightarrow> npfloat" where
  "np_std_ddof1 xs = (if length xs \<le> 1 then NonFinite else Finite (std_ddof1 xs))"

definition np_map :: "(real \<Rightarrow> real) \<Rightarrow> npfloat \<Rightarrow> npfloat" where
  "np_map f x = (case x of Finite r \<Rightarrow> Finite (f r) | NonFinite \<Rightarrow> NonFinite)"

text \<open>Division of two numpy floats: a zero divisor gives \<open>inf\<close> or \<open>nan\<close>, with a warning.\<close>

definition np_div :: "real \<Rightarrow> real \<Rightarrow> npfloat" where
  "np_div x y = (if y = 0 then NonFinite else Finite (x / y))"

text \<open>The median, and \<^verbatim>\<open>numpy.percentile\<close> with its default linear interpolation.\<close>

definition median :: "real list \<Rightarrow> real" where
  "median xs =
     (let s = sort xs; n = length xs
      in if odd n then s ! (n div 2) else (s ! (n div 2 - 1) + s ! (n div 2)) / 2)"

definition percentile :: "real list \<Rightarrow> real \<Rightarrow> real" where
  "percentile xs q =
     (let s = sort xs;
          pos = real (length xs - 1) * q / 100;
          lo = nat \<lfloor>pos\<rfloor>;
          hi = min (lo + 1) (length xs - 1)
      in s ! lo + (pos - real lo) * (s ! hi - s ! lo))"

text \<open>\<^verbatim>\<open>str(n)\<close> for an integer, as the f-strings of the dictionary keys render it.\<close>

definition digit_char :: "nat \<Rightarrow> char" where
  "digit_char d = ''0123456789'' ! d"

fun str_nat :: "nat \<Rightarrow> string" where
  "str_nat n = (if n < 10 then [digit_char n] else str_nat (n div 10) @ [digit_char (n mod 10)])"

declare str_nat.simps [simp del]

definition str_int :: "int \<Rightarrow> string" where
  "str_int i = (if i < 0 then CHR ''-'' # str_nat (nat (- i)) else str_nat (nat i))"

text \<open>
  Insertion-ordered dictionaries. \<open>dict_update k d f\<close> is
  \<^verbatim>\<open>if k not in dict: dict[k] = d\<close> followed by \<^verbatim>\<open>dict[k] = f(dict[k])\<close>, and
  \<open>dict_set k v\<close> is the assignment \<^verbatim>\<open>dict[k] = v\<close>: a new key goes to the end, an old
  key keeps its place.
\<close>

fun dict_update :: "'k \<Rightarrow> 'v \<Rightarrow> ('v \<Rightarrow> 'v) \<Rightarrow> ('k \<times> 'v) list \<Rightarrow> ('k \<times> 'v) list" where
  "dict_update k d f [] = [(k, f d)]"
| "dict_update k d f ((k', v) # rest) =
     (if k = k' then (k', f v) # rest else (k', v) # dict_update k d f rest)"

definition dict_set :: "'k \<Rightarrow> 'v \<Rightarrow> ('k \<times> 'v) list \<Rightarrow> ('k \<times> 'v) list" where
  "dict_set k v dict = dict_update k v (\<lambda>_. v) dict"

text \<open>A loop whose body may raise: the first error ends it.\<close>

fun map_result :: "('a \<Rightarrow> 'e + 'b) \<Rightarrow> 'a list \<Rightarrow> 'e + 'b list" where
  "map_result f [] = Inr []"
| "map_result f (x # xs) =
     (case f x of
        Inl e \<Rightarrow> Inl e
      | Inr y \<Rightarrow> (case map_result f xs of Inl e \<Rightarrow> Inl e | Inr ys \<Rightarrow> Inr (y # ys)))"

section \<open>Statistics aggregator\<close>

text \<open>
  The Student-t quantile \<^verbatim>\<open>scipy.stats.t.ppf(p, df)\<close> is a parameter \<open>t_ppf\<close> of the
  functions that call it.
\<close>

subsection \<open>extract\_real\_data\_only.py: calculate\_real\_statistics\<close>

record confidence_interval =
  lower :: real
  upper :: real
  margin_of_error :: real

record metric_stats =
  ps_count :: nat
  ps_mean :: real
  ps_std :: real
  ps_min :: real
  ps_max :: real
  ps_median :: real
  confidence_interval_95 :: confidence_interval
  coefficient_of_variation :: real

text \<open>
  The body of the loop over the metrics, for the column \<open>data\<close>: \<open>metric_entry\<close> is
  the dictionary stored for a column of more than one sample, and a column of fewer gets
  no entry (\<open>None\<close>).
\<close>

definition metric_entry :: "(real \<Rightarrow> int \<Rightarrow> real) \<Rightarrow> real list \<Rightarrow> metric_stats" where
  "metric_entry t_ppf data =
     (let confidence_level = 0.95;
          degrees_freedom = int (length data) - 1;
          sample_mean = np_mean data;
          sample_std = std_ddof1 data;
          t_critical = t_ppf ((1 + confidence_level) / 2) degrees_freedom;
          margin = t_critical * (sample_std / sqrt (real (length data)))
      in \<lparr>ps_count = length data, ps_mean = sample_mean, ps_std = sample_std,
          ps_min = Min (set data), ps_max = Max (set data), ps_median = median data,
          confidence_interval_95 =
            \<lparr>lower = sample_mean - margin, upper = sample_mean + margin,
             margin_of_error = margin\<rparr>,
          coefficient_of_variation =
            (if sample_mean \<noteq> 0 then sample_std / sample_mean else 0)\<rparr>)"

definition metric_statistics :: "(real \<Rightarrow> int \<Rightarrow> real) \<Rightarrow> real list \<Rightarrow> metric_stats option" where
  "metric_statistics t_ppf data =
     (if length data > 1 then Some (metric_entry t_ppf data) else None)"

definition metrics :: "(string \<times> (df_row \<Rightarrow> real)) list" where
  "metrics =
     [(''latency_ms'', r_latency_ms), (''throughput_fps'', r_throughput_fps),
      (''power_watts'', r_power_watts), (''efficiency_fps_per_watt'', r_efficiency_fps_per_watt),
      (''temperature_celsius'', r_temperature_celsius)]"

definition performance_stats ::
  "(real \<Rightarrow> int \<Rightarrow> real) \<Rightarrow> df_row list \<Rightarrow> (string \<times> metric_stats) list" where
  "performance_stats t_ppf rows =
     foldl (\<lambda>stats (metric, col).
              case metric_statistics t_ppf (map col rows) of
                None \<Rightarrow> stats
              | Some st \<Rightarrow> dict_set metric st stats)
       [] metrics"

text \<open>
  The peak values of \<^verbatim>\<open>calculate_real_statistics\<close>: maxima and minima of whole columns.
  On an empty column pandas returns \<open>nan\<close>.
\<close>

definition series_max :: "real list \<Rightarrow> npfloat" where
  "series_max xs = (if xs = [] then NonFinite else Finite (Max (set xs)))"

definition series_min :: "real list \<Rightarrow> npfloat" where
  "series_min xs = (if xs = [] then NonFinite else Finite (Min (set xs)))"

record peak_performance =
  peak_throughput_fps :: npfloat
  peak_efficiency_fps_per_watt :: npfloat
  min_latency_ms :: npfloat
  max_temperature_celsius :: npfloat
  min_watts :: npfloat
  max_watts :: npfloat

definition calculate_peak_performance :: "df_row list \<Rightarrow> peak_performance" where
  "calculate_peak_performance rows =
     \<lparr>peak_throughput_fps = series_max (map r_throughput_fps rows),
      peak_efficiency_fps_per_watt = series_max (map r_efficiency_fps_per_watt rows),
      min_latency_ms = series_min (map r_latency_ms rows),
      max_temperature_celsius = series_max (map r_temperature_celsius rows),
      min_watts = series_min (map r_power_watts rows),
      max_watts = series_max (map r_power_watts rows)\<rparr>"

subsection \<open>validate\_calculations.py: reproduce\_summary\_statistics\<close>

text \<open>
  One entry of \<^verbatim>\<open>stats_results\<close>. A key that the entry does not have, or whose value is
  Python's \<^verbatim>\<open>None\<close>, is \<open>None\<close>.
\<close>

record summary =
  sr_count :: nat
  sr_mean :: real
  sr_std :: npfloat
  sr_min :: real
  sr_max :: real
  sr_median :: real
  sr_q25 :: "real option"
  sr_q75 :: "real option"
  sr_confidence_interval_95 :: "(npfloat \<times> npfloat) option"
  sr_margin_of_error :: "npfloat option"

definition base_summary :: "bool \<Rightarrow> real list \<Rightarrow> summary" where
  "base_summary quartiles xs =
     \<lparr>sr_count = length xs, sr_mean = np_mean xs, sr_std = np_std_ddof1 xs,
      sr_min = Min (set xs), sr_max = Max (set xs), sr_median = median xs,
      sr_q25 = (if quartiles then Some (percentile xs 25) else None),
      sr_q75 = (if quartiles then Some (percentile xs 75) else None),
      sr_confidence_interval_95 = None, sr_margin_of_error = None\<rparr>"

definition initial_stats :: "measurement list \<Rightarrow> (string \<times> summary) list" where
  "initial_stats measurements =
     [(''power_consumption_watts'', base_summary True (map power_consumption_watts measurements)),
      (''throughput_fps'', base_summary True (map throughput_fps measurements)),
      (''efficiency_fps_per_watt'', base_summary True (map efficiency_fps_per_watt measurements)),
      (''temperature_celsius'', base_summary False (map temperature_celsius measurements))]"

text \<open>The body of the loop that adds the confidence intervals.\<close>

definition ci_step ::
  "(real \<Rightarrow> int \<Rightarrow> real) \<Rightarrow> measurement list \<Rightarrow> string \<times> summary \<Rightarrow> py_error + (string \<times> summary)" where
  "ci_step t_ppf measurements entry =
     (let metric_name = fst entry; metric_data = snd entry
      in if metric_name = ''temperature_celsius'' then Inr entry
         else (case map_of
                      [(''power_consumption_watts'', map power_consumption_watts measurements),
                       (''throughput_fps'', map throughput_fps measurements),
                       (''efficiency_fps_per_watt'', map efficiency_fps_per_watt measurements)]
                      metric_name of
                 None \<Rightarrow> Inl KeyError
               | Some data_array \<Rightarrow>
                   (let n = length data_array;
                        mean = sr_mean metric_data;
                        std = sr_std metric_data;
                        t_value = t_ppf 0.975 (int n - 1);
                        margin_error = np_map (\<lambda>s. t_value * (s / sqrt (real n))) std;
                        ci_lower = np_map (\<lambda>e. mean - e) margin_error;
                        ci_upper = np_map (\<lambda>e. mean + e) margin_error
                    in Inr (metric_name,
                            metric_data\<lparr>sr_confidence_interval_95 := Some (ci_lower, ci_upper),
                                        sr_margin_of_error := Some margin_error\<rparr>))))"

text \<open>On an empty list \<^verbatim>\<open>numpy.min\<close> raises \<^verbatim>\<open>ValueError\<close> while the first entry is built.\<close>

definition reproduce_summary_statistics ::
  "(real \<Rightarrow> int \<Rightarrow> real) \<Rightarrow> measurement list \<Rightarrow> py_error + (string \<times> summary) list" where
  "reproduce_summary_statistics t_ppf measurements =
     (if measurements = [] then Inl ValueError
      else map_result (ci_step t_ppf measurements) (initial_stats measurements))"

section \<open>Peak finder (validate\_calculations.py)\<close>

definition config_key :: "measurement \<Rightarrow> string" where
  "config_key m =
     dict_get (model_name m) ''unknown'' @ ''_cores'' @ str_int (dict_get (core_count m) 1)
       @ ''_batch'' @ str_int (dict_get (batch_size m) 1)"

definition config_groups :: "measurement list \<Rightarrow> (string \<times> measurement list) list" where
  "config_groups measurements =
     foldl (\<lambda>groups m. dict_update (config_key m) [] (\<lambda>l. l @ [m]) groups) [] measurements"

record config_summary =
  measurement_count :: nat
  avg_throughput :: real
  max_throughput :: real
  avg_efficiency :: real
  max_efficiency :: real
  avg_power :: real

record peak_result =
  peak_throughput :: real
  peak_throughput_config :: "string option"
  peak_throughput_measurement :: "measurement option"
  peak_efficiency :: real
  peak_efficiency_config :: "string option"
  peak_efficiency_measurement :: "measurement option"
  config_summaries :: "(string \<times> config_summary) list"

text \<open>
  The first measurement of the group with the given value, as the inner \<^verbatim>\<open>for\<close> loop
  with its \<^verbatim>\<open>break\<close> finds it; without one the variable keeps its value.
\<close>

definition first_with :: "(measurement \<Rightarrow> real) \<Rightarrow> real \<Rightarrow> measurement list \<Rightarrow> measurement option \<Rightarrow> measurement option" where
  "first_with f v ms old = (case find (\<lambda>m. f m = v) ms of None \<Rightarrow> old | Some m \<Rightarrow> Some m)"

definition summarize_config :: "measurement list \<Rightarrow> config_summary" where
  "summarize_config ms =
     (let throughputs = map throughput_fps ms;
          efficiencies = map efficiency_fps_per_watt ms;
          powers = map power_consumption_watts ms
      in \<lparr>measurement_count = length ms,
          avg_throughput = np_mean throughputs, max_throughput = Max (set throughputs),
          avg_efficiency = np_mean efficiencies, max_efficiency = Max (set efficiencies),
          avg_power = np_mean powers\<rparr>)"

text \<open>The body of the loop over the groups.\<close>

definition peak_step :: "peak_result \<Rightarrow> string \<times> measurement list \<Rightarrow> peak_result" where
  "peak_step st kc =
     (let key = fst kc; ms = snd kc;
          st1 = st\<lparr>config_summaries := dict_set key (summarize_config ms) (config_summaries st)\<rparr>;
          max_tp = Max (set (map throughput_fps ms));
          st2 = (if max_tp > peak_throughput st1
                 then st1\<lparr>peak_throughput := max_tp,
                          peak_throughput_config := Some key,
                          peak_throughput_measurement :=
                            first_with throughput_fps max_tp ms (peak_throughput_measurement st1)\<rparr>
                 else st1);
          max_eff = Max (set (map efficiency_fps_per_watt ms))
      in if max_eff > peak_efficiency st2
         then st2\<lparr>peak_efficiency := max_eff,
                  peak_efficiency_config := Some key,
                  peak_efficiency_measurement :=
                    first_with efficiency_fps_per_watt max_eff ms (peak_efficiency_measurement st2)\<rparr>
         else st2)"

definition initial_peak :: peak_result where
  "initial_peak =
     \<lparr>peak_throughput = 0, peak_throughput_config = None, peak_throughput_measurement = None,
      peak_efficiency = 0, peak_efficiency_config = None, peak_efficiency_measurement = None,
      config_summaries = []\<rparr>"

definition identify_peak_configurations :: "measurement list \<Rightarrow> peak_result" where
  "identify_peak_configurations measurements =
     foldl peak_step initial_peak (config_groups measurements)"

section \<open>Scaling analyzer\<close>

subsection \<open>validate\_calculations.py: analyze\_scaling\_performance\<close>

definition combo_key :: "measurement \<Rightarrow> string" where
  "combo_key m =
     dict_get (model_name m) ''unknown'' @ ''_batch'' @ str_int (dict_get (batch_size m) 1)"

definition scaling_analysis :: "measurement list \<Rightarrow> (string \<times> (int \<times> measurement list) list) list" where
  "scaling_analysis measurements =
     foldl (\<lambda>groups m.
              dict_update (combo_key m) []
                (dict_update (dict_get (core_count m) 1) [] (\<lambda>l. l @ [m])) groups)
       [] measurements"

record core_perf =
  cp_avg_throughput :: real
  cp_avg_power :: real
  cp_avg_efficiency :: real
  cp_measurement_count :: nat

record scaling_metric =
  scaling_factor :: npfloat
  scaling_efficiency_percent :: npfloat
  throughput_improvement :: npfloat

record scaling_result =
  core_performance :: "(int \<times> core_perf) list"
  scaling_metrics :: "(int \<times> scaling_metric) list"

definition core_summary :: "measurement list \<Rightarrow> core_perf" where
  "core_summary measurements_list =
     \<lparr>cp_avg_throughput = np_mean (map throughput_fps measurements_list),
      cp_avg_power = np_mean (map power_consumption_watts measurements_list),
      cp_avg_efficiency = np_mean (map efficiency_fps_per_watt measurements_list),
      cp_measurement_count = length measurements_list\<rparr>"

definition scaling_metric_of :: "real \<Rightarrow> int \<Rightarrow> core_perf \<Rightarrow> scaling_metric" where
  "scaling_metric_of baseline_throughput cores perf_data =
     (let factor = np_div (cp_avg_throughput perf_data) baseline_throughput;
          scaling_efficiency = np_map (\<lambda>f. f / real_of_int cores) factor
      in \<lparr>scaling_factor = factor,
          scaling_efficiency_percent = np_map (\<lambda>e. e * 100) scaling_efficiency,
          throughput_improvement = np_map (\<lambda>f. (f - 1) * 100) factor\<rparr>)"

text \<open>
  The body of the loop over the model and batch combinations, with its two inner loops:
  the one that fills \<^verbatim>\<open>core_performance\<close> from the group and the one that fills
  \<^verbatim>\<open>scaling_metrics\<close> from \<^verbatim>\<open>core_performance\<close> and the 1-core baseline.
\<close>

definition core_performance_of :: "(int \<times> measurement list) list \<Rightarrow> (int \<times> core_perf) list" where
  "core_performance_of core_data =
     foldl (\<lambda>cp (cores, measurements_list). dict_set cores (core_summary measurements_list) cp)
       [] core_data"

definition scaling_metrics_of :: "real \<Rightarrow> (int \<times> core_perf) list \<Rightarrow> (int \<times> scaling_metric) list" where
  "scaling_metrics_of baseline_throughput perf =
     foldl (\<lambda>sm (cores, perf_data).
              if cores > 1
              then dict_set cores (scaling_metric_of baseline_throughput cores perf_data) sm
              else sm)
       [] perf"

definition scaling_step ::
  "(string \<times> scaling_result) list \<Rightarrow> string \<times> (int \<times> measurement list) list
   \<Rightarrow> (string \<times> scaling_result) list" where
  "scaling_step scaling_results kc =
     (let key = fst kc; core_data = snd kc
      in if length core_data < 2 then scaling_results
         else (let perf = core_performance_of core_data
               in case map_of perf 1 of
                    None \<Rightarrow> scaling_results
                  | Some base \<Rightarrow>
                      (let baseline_throughput = cp_avg_throughput base
                       in dict_set key
                            \<lparr>core_performance = perf,
                             scaling_metrics = scaling_metrics_of baseline_throughput perf\<rparr>
                            scaling_results)))"

definition analyze_scaling_performance :: "measurement list \<Rightarrow> (string \<times> scaling_result) list" where
  "analyze_scaling_performance measurements =
     foldl scaling_step [] (scaling_analysis measurements)"

subsection \<open>extract\_real\_data\_only.py: \_analyze\_multicore\_scaling\<close>

record scaling_entry =
  se_throughput_fps :: real
  se_scaling_factor :: real
  se_efficiency :: real
  se_sample_count :: nat

record multicore_scaling =
  cores_tested :: "int list"
  scaling_details :: "(string \<times> scaling_entry) list"
  overall_scaling_efficiency :: real

text \<open>
  The body of the loop over the core counts 1, 2 and 4. The state is the dictionary
  \<^verbatim>\<open>scaling_data\<close> and \<^verbatim>\<open>baseline_throughput\<close>, which is \<^verbatim>\<open>None\<close> until 1-core data
  was seen. \<^verbatim>\<open>x / b if b else 0\<close> is 0 when \<^verbatim>\<open>b\<close> is \<^verbatim>\<open>None\<close> or zero.
\<close>

definition resnet18_batch1 :: "df_row list \<Rightarrow> df_row list" where
  "resnet18_batch1 measurements_df =
     filter (\<lambda>r. r_model r = ''resnet18-imagenet'' \<and> r_batch_size r = 1) measurements_df"

definition core_rows :: "df_row list \<Rightarrow> int \<Rightarrow> df_row list" where
  "core_rows rows cores = filter (\<lambda>r. r_cores r = cores) rows"

definition multicore_step ::
  "df_row list \<Rightarrow> (string \<times> scaling_entry) list \<times> real option \<Rightarrow> int
   \<Rightarrow> (string \<times> scaling_entry) list \<times> real option" where
  "multicore_step rows st cores =
     (let scaling_data = fst st; baseline_throughput = snd st;
          core_data = core_rows rows cores
      in if length core_data > 0
         then (let mean_throughput = np_mean (map r_throughput_fps core_data)
               in if cores = 1
                  then (dict_set (str_int cores @ ''_cores'')
                          \<lparr>se_throughput_fps = mean_throughput, se_scaling_factor = 1,
                           se_efficiency = 1, se_sample_count = length core_data\<rparr> scaling_data,
                        Some mean_throughput)
                  else (let factor = (case baseline_throughput of
                                        None \<Rightarrow> 0
                                      | Some b \<Rightarrow> if b \<noteq> 0 then mean_throughput / b else 0);
                            efficiency = factor / real_of_int cores
                        in (dict_set (str_int cores @ ''_cores'')
                              \<lparr>se_throughput_fps = mean_throughput, se_scaling_factor = factor,
                               se_efficiency = efficiency, se_sample_count = length core_data\<rparr>
                              scaling_data,
                            baseline_throughput)))
         else st)"

definition analyze_multicore_scaling :: "df_row list \<Rightarrow> multicore_scaling" where
  "analyze_multicore_scaling measurements_df =
     (let scaling_data =
            fst (foldl (multicore_step (resnet18_batch1 measurements_df)) ([], None) [1, 2, 4]);
          overall_efficiency =
            (case map_of scaling_data ''4_cores'' of None \<Rightarrow> 0 | Some e \<Rightarrow> se_efficiency e)
      in \<lparr>cores_tested = [1, 2, 3, 4], scaling_details = scaling_data,
          overall_scaling_efficiency = overall_efficiency\<rparr>)"

section \<open>Report assembler (validate\_calculations.py)\<close>

record overall_assessment =
  mathematical_consistency_rate :: real
  data_quality :: string
  statistical_validity :: string
  validation_status :: string

record validation_report =
  dataset_total_measurements :: int
  extracted_valid_measurements :: nat
  dataset_success_rate :: real
  report_consistency :: validation_results
  reproduced_statistics :: "(string \<times> summary) list"
  peak_configurations :: peak_result
  report_scaling :: "(string \<times> scaling_result) list"
  assessment :: overall_assessment

text \<open>
  \<^verbatim>\<open>generate_validation_report\<close>, without the printing and the file it writes. The first
  division, of the number of extracted measurements, is by
  \<^verbatim>\<open>summary_statistics.total_measurements\<close> of the document, 1 when the key is absent.
\<close>

definition generate_validation_report ::
  "(real \<Rightarrow> int \<Rightarrow> real) \<Rightarrow> benchmark_data \<Rightarrow> py_error + validation_report" where
  "generate_validation_report t_ppf d =
     (let measurements = extract_all_measurements d;
          n = length measurements;
          declared = dict_get (summary_total_measurements d) 1
      in if declared = 0 then Inl ZeroDivisionError
         else (case validate_mathematical_consistency measurements of
                 Inl e \<Rightarrow> Inl e
               | Inr consistency_results \<Rightarrow>
                  (case reproduce_summary_statistics t_ppf measurements of
                     Inl e \<Rightarrow> Inl e
                   | Inr stats_results \<Rightarrow>
                      (let peak_results = identify_peak_configurations measurements;
                           scaling_results = analyze_scaling_performance measurements
                       in case success_rate consistency_results of
                            Inl e \<Rightarrow> Inl e
                          | Inr math_success_rate \<Rightarrow>
                              Inr \<lparr>dataset_total_measurements =
                                     dict_get (summary_total_measurements d) 0,
                                   extracted_valid_measurements = n,
                                   dataset_success_rate = real n / real_of_int declared,
                                   report_consistency = consistency_results,
                                   reproduced_statistics = stats_results,
                                   peak_configurations = peak_results,
                                   report_scaling = scaling_results,
                                   assessment =
                                     \<lparr>mathematical_consistency_rate = math_success_rate,
                                      data_quality =
                                        (if math_success_rate \<ge> 95 then ''EXCELLENT''
                                         else if math_success_rate \<ge> 90 then ''GOOD'' else ''POOR''),
                                      statistical_validity =
                                        (if n > 1000 then ''HIGH''
                                         else if n > 100 then ''MEDIUM'' else ''LOW''),
                                      validation_status =
                                        (if math_success_rate \<ge> 95 \<and> n > 1000
                                         then ''PASSED'' else ''FAILED'')\<rparr>\<rparr>))))"

section \<open>Notions used to state the theorems\<close>

text \<open>
  The failure entries that one pass of the loop body of \<^verbatim>\<open>validate_measurements\<close>
  appends for a row, in the order of the three tests of the body
  (lemma \<open>validate_row_failed\<close> ties it to the body).
\<close>

definition row_failures :: "nat \<times> df_row \<Rightarrow> failed_validation list" where
  "row_failures ir = failed_validations
     (validate_row
        \<lparr>mv_total_measurements = 0,
         validation_checks = \<lparr>mathematical_consistency = 0, physical_validity = 0, range_validation = 0\<rparr>,
         failed_validations = []\<rparr> ir)"

text \<open>The same for the loop body of \<^verbatim>\<open>validate_mathematical_consistency\<close>.\<close>

definition measurement_failures :: "nat \<times> measurement \<Rightarrow> failed_measurement list" where
  "measurement_failures im = failed_measurements
     (consistency_step
        \<lparr>total_measurements = 0, consistency_checks = 0, consistency_failures = 0,
         failed_measurements = []\<rparr> im)"

text \<open>
  The entry that the loop body of \<^verbatim>\<open>analyze_scaling_performance\<close> stores for a group,
  \<open>None\<close> when the body stores nothing (lemma \<open>scaling_step_eq\<close> ties it to the body).
\<close>

definition group_entry :: "(int \<times> measurement list) list \<Rightarrow> scaling_result option" where
  "group_entry core_data =
     (if length core_data < 2 then None
      else (case map_of (core_performance_of core_data) 1 of
              None \<Rightarrow> None
            | Some base \<Rightarrow>
                Some \<lparr>core_performance = core_performance_of core_data,
                      scaling_metrics =
                        scaling_metrics_of (cp_avg_throughput base)
                          (core_performance_of core_data)\<rparr>))"

text \<open>
  Modelled from the words of claim C2: the expected efficiency is throughput divided by
  power, and 0 if the power is 0; the check passes when the distance to the recorded
  efficiency is at most the larger of an absolute floor and a relative tolerance.
\<close>

definition claimed_expected_efficiency :: "real \<Rightarrow> real \<Rightarrow> real" where
  "claimed_expected_efficiency throughput watts = (if watts = 0 then 0 else throughput / watts)"

definition claimed_efficiency_pass :: "real \<Rightarrow> real \<Rightarrow> real \<Rightarrow> real \<Rightarrow> real \<Rightarrow> bool" where
  "claimed_efficiency_pass absolute_floor relative_tolerance throughput watts efficiency =
     (\<bar>claimed_expected_efficiency throughput watts - efficiency\<bar>
        \<le> max absolute_floor (efficiency * relative_tolerance))"

text \<open>
  Modelled from the words of claim C1: the Bessel-corrected sample standard deviation,
  the margin \<open>t(0.975, n - 1) * std / sqrt n\<close> and the interval
  \<open>[mean - margin, mean + margin]\<close>.
\<close>

definition claimed_std :: "real list \<Rightarrow> real" where
  "claimed_std xs =
     sqrt ((\<Sum>x\<leftarrow>xs. (x - sum_list xs / real (length xs))\<^sup>2) / real (length xs - 1))"

definition claimed_margin :: "(real \<Rightarrow> int \<Rightarrow> real) \<Rightarrow> real list \<Rightarrow> real" where
  "claimed_margin t xs =
     t 0.975 (int (length xs - 1)) * claimed_std xs / sqrt (real (length xs))"

definition claimed_interval :: "(real \<Rightarrow> int \<Rightarrow> real) \<Rightarrow> real list \<Rightarrow> real \<times> real" where
  "claimed_interval t xs =
     (sum_list xs / real (length xs) - claimed_margin t xs,
      sum_list xs / real (length xs) + claimed_margin t xs)"

text \<open>
  The entry of \<^verbatim>\<open>stats_results\<close> after the loop body of
  \<^verbatim>\<open>reproduce_summary_statistics\<close> has stored the interval and the margin computed from
  the data array \<open>xs\<close> (lemmas \<open>ci_step_power\<close>, \<open>ci_step_throughput\<close> and
  \<open>ci_step_efficiency\<close> tie it to the body).
\<close>

definition with_interval :: "(real \<Rightarrow> int \<Rightarrow> real) \<Rightarrow> real list \<Rightarrow> summary \<Rightarrow> summary" where
  "with_interval t xs s =
     s\<lparr>sr_confidence_interval_95 :=
          Some (np_map (\<lambda>e. sr_mean s - e)
                  (np_map (\<lambda>sd. t 0.975 (int (length xs) - 1) * (sd / sqrt (real (length xs)))) (sr_std s)),
                np_map (\<lambda>e. sr_mean s + e)
                  (np_map (\<lambda>sd. t 0.975 (int (length xs) - 1) * (sd / sqrt (real (length xs)))) (sr_std s))),
       sr_margin_of_error :=
          Some (np_map (\<lambda>sd. t 0.975 (int (length xs) - 1) * (sd / sqrt (real (length xs)))) (sr_std s))\<rparr>"

text \<open>
  The entry that the loop body of \<^verbatim>\<open>_analyze_multicore_scaling\<close> stores for the rows
  \<open>core_data\<close> of one core count, given the scaling factor it has computed
  (lemmas \<open>multicore_step_1\<close>, \<open>multicore_step_2\<close> and \<open>multicore_step_4\<close> tie it to the
  body).
\<close>

definition entry_for :: "df_row list \<Rightarrow> real \<Rightarrow> int \<Rightarrow> scaling_entry" where
  "entry_for core_data factor cores =
     \<lparr>se_throughput_fps = np_mean (map r_throughput_fps core_data), se_scaling_factor = factor,
      se_efficiency = factor / real_of_int cores, se_sample_count = length core_data\<rparr>"

text \<open>
  The running best of one metric \<open>f\<close> in the loop of \<^verbatim>\<open>identify_peak_configurations\<close>:
  the peak value, the key of its group and its measurement, as the loop body updates them
  for one group (lemma \<open>peak_step_throughput\<close> and \<open>peak_step_efficiency\<close> tie it to the
  body). \<open>iteration_order\<close> lists the measurements in the order in which that loop
  visits them: group by group in the order of the groups' first members, and inside a
  group in input order.
\<close>

definition best_step ::
  "(measurement \<Rightarrow> real) \<Rightarrow> real \<times> string option \<times> measurement option
   \<Rightarrow> string \<times> measurement list \<Rightarrow> real \<times> string option \<times> measurement option" where
  "best_step f best kc =
     (if Max (set (map f (snd kc))) > fst best
      then (Max (set (map f (snd kc))), Some (fst kc),
            first_with f (Max (set (map f (snd kc)))) (snd kc) (snd (snd best)))
      else best)"

definition iteration_order :: "measurement list \<Rightarrow> measurement list" where
  "iteration_order measurements = concat (map snd (config_groups measurements))"

text \<open>
  The model, the core count and the batch size of a measurement, with the defaults that
  \<^verbatim>\<open>identify_peak_configurations\<close> and \<^verbatim>\<open>analyze_scaling_performance\<close> take for an absent
  key; \<open>config_of\<close> is the full configuration of a measurement. \<open>sub_group\<close> lists the
  measurements of the input that have a given model, batch size and core count, in input
  order, and \<open>core_counts\<close> is the set of core counts that occur in the input for a given
  model and batch size.
\<close>

definition model_of :: "measurement \<Rightarrow> string" where
  "model_of m = dict_get (model_name m) ''unknown''"

definition cores_of :: "measurement \<Rightarrow> int" where
  "cores_of m = dict_get (core_count m) 1"

definition batch_of :: "measurement \<Rightarrow> int" where
  "batch_of m = dict_get (batch_size m) 1"

definition config_of :: "measurement \<Rightarrow> string \<times> int \<times> int" where
  "config_of m = (model_of m, cores_of m, batch_of m)"

definition sub_group :: "measurement list \<Rightarrow> string \<Rightarrow> int \<Rightarrow> int \<Rightarrow> measurement list" where
  "sub_group ms model batch cores =
     filter (\<lambda>m. model_of m = model \<and> batch_of m = batch \<and> cores_of m = cores) ms"

definition core_counts :: "measurement list \<Rightarrow> string \<Rightarrow> int \<Rightarrow> int set" where
  "core_counts ms model batch =
     cores_of ` {m \<in> set ms. model_of m = model \<and> batch_of m = batch}"

text \<open>
  The distinct elements of a list in the order of their first occurrences: the order in
  which a Python dictionary lists the keys that a loop has inserted.
\<close>

fun first_occurrences :: "'a list \<Rightarrow> 'a list" where
  "first_occurrences [] = []"
| "first_occurrences (x # xs) = x # filter (\<lambda>y. y \<noteq> x) (first_occurrences xs)"

text \<open>
  The characters of a rendered integer: the digits and the minus sign. The keys of the
  two grouping dictionaries end in \<^verbatim>\<open>_batch\<close> and such a number, which is what makes
  them determine the model, the core count and the batch size.
\<close>

definition key_digit :: "char \<Rightarrow> bool" where
  "key_digit c = (c \<in> set ''-0123456789'')"


section \<open>Sample inputs\<close>

text \<open>
  Concrete inputs for the instances of the theorems below: a data frame row with the
  given latency, throughput, power, efficiency and temperature, and a measurement
  dictionary with the given model, core count, batch size, latency, throughput, power
  and efficiency.
\<close>

definition sample_row :: "real \<Rightarrow> real \<Rightarrow> real \<Rightarrow> real \<Rightarrow> real \<Rightarrow> df_row" where
  "sample_row lat tp pw eff temp =
     \<lparr>r_model = ''resnet18-imagenet'', r_configuration = ''cores1_batch1'',
      r_latency_ms = lat, r_throughput_fps = tp, r_power_watts = pw,
      r_efficiency_fps_per_watt = eff, r_temperature_celsius = temp,
      r_cores = 1, r_batch_size = 1\<rparr>"

definition sample_scaling_row :: "int \<Rightarrow> real \<Rightarrow> df_row" where
  "sample_scaling_row cores tp =
     \<lparr>r_model = ''resnet18-imagenet'', r_configuration = ''cores_batch1'',
      r_latency_ms = 10, r_throughput_fps = tp, r_power_watts = 10,
      r_efficiency_fps_per_watt = tp / 10, r_temperature_celsius = 50,
      r_cores = cores, r_batch_size = 1\<rparr>"

definition sample_measurement ::
  "string \<Rightarrow> int \<Rightarrow> int \<Rightarrow> real \<Rightarrow> real \<Rightarrow> real \<Rightarrow> real \<Rightarrow> measurement" where
  "sample_measurement model cores batch lat tp pw eff =
     \<lparr>model_name = Some model, core_count = Some cores, batch_size = Some batch,
      is_valid = Some True, latency_ms = lat, throughput_fps = tp,
      power_consumption_watts = pw, efficiency_fps_per_watt = eff,
      temperature_celsius = 50\<rparr>"

section \<open>Theorems\<close>

subsection \<open>Helper lemmas\<close>

lemma starts_with_append: "starts_with p (p @ s)"
  by (induction p) auto

lemma starts_with_prefix_trans: "starts_with (p @ q) s \<Longrightarrow> starts_with p s"
  by (induction p s rule: starts_with.induct) auto

lemma str_contains_prefix_trans: "str_contains (p @ q) s \<Longrightarrow> str_contains p s"
proof (induction s)
  case Nil
  then show ?case by simp
next
  case (Cons c cs)
  then show ?case by (auto dest: starts_with_prefix_trans)
qed

lemma length_py_enumerate: "length (py_enumerate i xs) = length xs"
  by (induction xs arbitrary: i) auto

lemma efficiency_step_checks: "consistency_checks (efficiency_step i m vr) = consistency_checks vr"
  by (simp add: efficiency_step_def Let_def)

lemma throughput_step_checks: "consistency_checks (throughput_step i m vr) = consistency_checks vr"
  by (simp add: throughput_step_def Let_def)

lemma consistency_step_checks:
  "consistency_checks (consistency_step vr im) = Suc (consistency_checks vr)"
  by (simp add: consistency_step_def efficiency_step_checks throughput_step_checks)

lemma foldl_consistency_checks:
  "consistency_checks (foldl consistency_step vr xs) = consistency_checks vr + length xs"
  by (induction xs arbitrary: vr) (auto simp: consistency_step_checks)

lemma consistency_loop_checks: "consistency_checks (consistency_loop ms) = length ms"
  by (simp add: consistency_loop_def foldl_consistency_checks length_py_enumerate)

lemma batch16_unreachable: "extract_batch_from_config s \<noteq> 16"
proof -
  have "str_contains ''batch16'' s \<Longrightarrow> str_contains ''batch1'' s"
    using str_contains_prefix_trans [of "''batch1''" "''6''" s] by simp
  then show ?thesis by (auto simp: extract_batch_from_config_def)
qed

lemma label_without_marker:
  assumes "\<not> str_contains ''cores1'' s" and "\<not> str_contains ''cores2'' s"
      and "\<not> str_contains ''cores4'' s" and "\<not> str_contains ''batch1'' s"
      and "\<not> str_contains ''batch4'' s" and "\<not> str_contains ''batch8'' s"
  shows "extract_cores_from_config s = 1 \<and> extract_batch_from_config s = 1"
proof -
  from assms(4) have "\<not> str_contains ''batch16'' s"
    using str_contains_prefix_trans [of "''batch1''" "''6''" s] by auto
  with assms show ?thesis
    by (simp add: extract_cores_from_config_def extract_batch_from_config_def)
qed

lemma label_with_cores4:
  assumes "str_contains ''cores4'' s"
      and "\<not> str_contains ''cores1'' s" and "\<not> str_contains ''cores2'' s"
  shows "extract_cores_from_config s = 4"
  using assms by (simp add: extract_cores_from_config_def)

subsection \<open>Loader: configuration labels\<close>

text \<open>
  Claim C9. The loader derives cores and batch size from the substring markers of the
  label; a label with the marker \<^verbatim>\<open>cores4\<close> yields 4 cores and a label with the marker
  \<^verbatim>\<open>batch16\<close> is meant to yield batch size 16. On the label
  \<^verbatim>\<open>resnet18_cores4_batch16\<close> the code yields 4 cores but batch size 1: the test
  for \<^verbatim>\<open>batch1\<close> comes first and matches inside \<^verbatim>\<open>batch16\<close>, so the branch that
  returns 16 is never taken (lemma \<open>batch16_unreachable\<close>). The rest of the claim
  holds: a label without any marker gets the defaults 1 and 1
  (lemma \<open>label_without_marker\<close>), and a label whose only core marker is
  \<^verbatim>\<open>cores4\<close> gets 4 cores (lemma \<open>label_with_cores4\<close>).
\<close>

theorem C9_batch16_label_yields_1:
  "str_contains ''batch16'' ''resnet18_cores4_batch16''
   \<and> extract_batch_from_config ''resnet18_cores4_batch16'' = 1
   \<and> extract_cores_from_config ''resnet18_cores4_batch16'' = 4"
  by (simp add: extract_batch_from_config_def extract_cores_from_config_def)

subsection \<open>Consistency validator: checks and failures\<close>

text \<open>
  Claim C10. In \<^verbatim>\<open>validate_mathematical_consistency\<close> every measurement adds exactly
  one to the counter of checks, so the counter ends at the number of measurements, while
  one measurement can add two failures (efficiency and throughput). Hence there is an
  input whose failures exceed its checks and whose success rate, the percentage
  \<open>(checks - failures) / checks * 100\<close>, is negative: with one check and two failures
  it is -100.
\<close>

theorem C10_failures_may_exceed_checks:
  "consistency_checks (consistency_step vr (i, m)) = consistency_checks vr + 1
   \<and> consistency_checks (consistency_loop ms) = length ms
   \<and> (\<exists>m vr rate.
         validate_mathematical_consistency [m] = Inr vr
         \<and> consistency_checks vr = 1
         \<and> consistency_failures vr = 2
         \<and> map test (failed_measurements vr)
             = [''efficiency_calculation'', ''throughput_calculation'']
         \<and> consistency_checks vr < consistency_failures vr
         \<and> success_rate vr = Inr rate
         \<and> rate = real_of_int (int (consistency_checks vr) - int (consistency_failures vr))
                    / real (consistency_checks vr) * 100
         \<and> rate = - 100
         \<and> rate < 0)"
proof -
  let ?m = "\<lparr>model_name = None, core_count = None, batch_size = None, is_valid = None,
             latency_ms = 1, throughput_fps = 100, power_consumption_watts = 10,
             efficiency_fps_per_watt = 20, temperature_celsius = 50\<rparr>"
  let ?vr = "consistency_loop [?m]"
  have 1: "consistency_checks ?vr = 1" by (simp add: consistency_loop_checks)
  have 2: "consistency_failures ?vr = 2"
    by (simp add: consistency_loop_def consistency_step_def efficiency_step_def
          throughput_step_def dict_get_def Let_def)
  have 3: "map test (failed_measurements ?vr)
           = [''efficiency_calculation'', ''throughput_calculation'']"
    by (simp add: consistency_loop_def consistency_step_def efficiency_step_def
          throughput_step_def dict_get_def Let_def)
  have 4: "success_rate ?vr = Inr (-100)"
    by (simp add: success_rate_def 1 2)
  have 5: "validate_mathematical_consistency [?m] = Inr ?vr"
    by (simp add: validate_mathematical_consistency_def Let_def 4)
  have "\<exists>m vr rate.
         validate_mathematical_consistency [m] = Inr vr
         \<and> consistency_checks vr = 1
         \<and> consistency_failures vr = 2
         \<and> map test (failed_measurements vr)
             = [''efficiency_calculation'', ''throughput_calculation'']
         \<and> consistency_checks vr < consistency_failures vr
         \<and> success_rate vr = Inr rate
         \<and> rate = real_of_int (int (consistency_checks vr) - int (consistency_failures vr))
                    / real (consistency_checks vr) * 100
         \<and> rate = - 100
         \<and> rate < 0"
    apply (rule exI [of _ ?m], rule exI [of _ ?vr], rule exI [of _ "-100"])
    using 1 2 3 4 5 by simp
  then show ?thesis
    by (simp add: consistency_step_checks consistency_loop_checks)
qed

subsection \<open>The two validators: what the loops record\<close>

lemma consistency_block_failed:
  "failed_validations (consistency_block idx row v) = failed_validations v @
     (if \<bar>(if r_power_watts row > 0 then r_throughput_fps row / r_power_watts row else 0)
           - r_efficiency_fps_per_watt row\<bar> \<le> max 0.001 (r_efficiency_fps_per_watt row * 0.001)
      then []
      else [Mathematical_consistency idx
              (if r_power_watts row > 0 then r_throughput_fps row / r_power_watts row else 0)
              (r_efficiency_fps_per_watt row)
              \<bar>(if r_power_watts row > 0 then r_throughput_fps row / r_power_watts row else 0)
                 - r_efficiency_fps_per_watt row\<bar>])"
  unfolding consistency_block_def Let_def by simp

lemma physical_block_failed:
  "failed_validations (physical_block idx row v) = failed_validations v @
     (if 0.1 \<le> r_latency_ms row \<and> r_latency_ms row \<le> 1000 then []
      else [Invalid_latency idx (r_latency_ms row)])
     @ (if 1 \<le> r_throughput_fps row \<and> r_throughput_fps row \<le> 10000 then []
        else [Invalid_throughput idx (r_throughput_fps row)])"
  unfolding physical_block_def throughput_check_def latency_check_def Let_def by simp

lemma range_block_failed: "failed_validations (range_block row v) = failed_validations v"
  unfolding range_block_def by simp

lemma validate_row_failed_explicit:
  "failed_validations (validate_row v (idx, row)) = failed_validations v @
     (if \<bar>(if r_power_watts row > 0 then r_throughput_fps row / r_power_watts row else 0)
           - r_efficiency_fps_per_watt row\<bar> \<le> max 0.001 (r_efficiency_fps_per_watt row * 0.001)
      then []
      else [Mathematical_consistency idx
              (if r_power_watts row > 0 then r_throughput_fps row / r_power_watts row else 0)
              (r_efficiency_fps_per_watt row)
              \<bar>(if r_power_watts row > 0 then r_throughput_fps row / r_power_watts row else 0)
                 - r_efficiency_fps_per_watt row\<bar>])
     @ (if 0.1 \<le> r_latency_ms row \<and> r_latency_ms row \<le> 1000 then []
        else [Invalid_latency idx (r_latency_ms row)])
     @ (if 1 \<le> r_throughput_fps row \<and> r_throughput_fps row \<le> 10000 then []
        else [Invalid_throughput idx (r_throughput_fps row)])"
  unfolding validate_row_def fst_conv snd_conv range_block_failed physical_block_failed
    consistency_block_failed by simp

lemma row_failures_explicit:
  "row_failures (idx, row) =
     (if \<bar>(if r_power_watts row > 0 then r_throughput_fps row / r_power_watts row else 0)
           - r_efficiency_fps_per_watt row\<bar> \<le> max 0.001 (r_efficiency_fps_per_watt row * 0.001)
      then []
      else [Mathematical_consistency idx
              (if r_power_watts row > 0 then r_throughput_fps row / r_power_watts row else 0)
              (r_efficiency_fps_per_watt row)
              \<bar>(if r_power_watts row > 0 then r_throughput_fps row / r_power_watts row else 0)
                 - r_efficiency_fps_per_watt row\<bar>])
     @ (if 0.1 \<le> r_latency_ms row \<and> r_latency_ms row \<le> 1000 then []
        else [Invalid_latency idx (r_latency_ms row)])
     @ (if 1 \<le> r_throughput_fps row \<and> r_throughput_fps row \<le> 10000 then []
        else [Invalid_throughput idx (r_throughput_fps row)])"
  unfolding row_failures_def validate_row_failed_explicit by simp

lemma validate_row_failed:
  "failed_validations (validate_row v ir) = failed_validations v @ row_failures ir"
  by (cases ir) (simp only: validate_row_failed_explicit row_failures_explicit)

lemma foldl_validate_row_failed:
  "failed_validations (foldl validate_row v xs) = failed_validations v @ concat (map row_failures xs)"
  by (induction xs arbitrary: v) (simp_all add: validate_row_failed)

lemma validation_loop_failed:
  "failed_validations (validation_loop rows) = concat (map row_failures (py_enumerate 0 rows))"
  by (simp add: validation_loop_def foldl_validate_row_failed)

lemma set_py_enumerate:
  "set (py_enumerate k xs) = {(k + j, xs ! j) | j. j < length xs}"
proof (induction xs arbitrary: k)
  case Nil
  then show ?case by simp
next
  case (Cons x xs)
  have "{(k + j, (x # xs) ! j) | j. j < Suc (length xs)}
        = insert (k, x) {(Suc k + j, xs ! j) | j. j < length xs}"
    apply (rule set_eqI)
    apply (auto simp: less_Suc_eq_0_disj)
    done
  then show ?case using Cons by simp
qed

lemma mem_loop_failed:
  "y \<in> set (failed_validations (validation_loop rows))
   \<longleftrightarrow> (\<exists>i < length rows. y \<in> set (row_failures (i, rows ! i)))"
proof -
  have "y \<in> set (failed_validations (validation_loop rows))
        \<longleftrightarrow> (\<exists>ir \<in> set (py_enumerate 0 rows). y \<in> set (row_failures ir))"
    by (simp add: validation_loop_failed)
  also have "\<dots> \<longleftrightarrow> (\<exists>i < length rows. y \<in> set (row_failures (i, rows ! i)))"
    by (force simp: set_py_enumerate)
  finally show ?thesis .
qed

lemma latency_row_failures:
  "Invalid_latency i x \<in> set (row_failures (j, r))
   \<longleftrightarrow> i = j \<and> x = r_latency_ms r \<and> \<not> (0.1 \<le> r_latency_ms r \<and> r_latency_ms r \<le> 1000)"
  unfolding row_failures_explicit by auto

lemma throughput_row_failures:
  "Invalid_throughput i x \<in> set (row_failures (j, r))
   \<longleftrightarrow> i = j \<and> x = r_throughput_fps r \<and> \<not> (1 \<le> r_throughput_fps r \<and> r_throughput_fps r \<le> 10000)"
  unfolding row_failures_explicit by auto

lemma math_row_failures:
  "Mathematical_consistency i e a d \<in> set (row_failures (j, r))
   \<longleftrightarrow> i = j
        \<and> e = (if r_power_watts r > 0 then r_throughput_fps r / r_power_watts r else 0)
        \<and> a = r_efficiency_fps_per_watt r
        \<and> d = \<bar>e - a\<bar>
        \<and> \<not> (d \<le> max 0.001 (a * 0.001))"
  unfolding row_failures_explicit by auto

lemma invalid_latency_mem:
  "Invalid_latency i x \<in> set (failed_validations (validation_loop rows))
   \<longleftrightarrow> i < length rows \<and> x = r_latency_ms (rows ! i)
        \<and> \<not> (0.1 \<le> r_latency_ms (rows ! i) \<and> r_latency_ms (rows ! i) \<le> 1000)"
  unfolding mem_loop_failed latency_row_failures by blast

lemma invalid_throughput_mem:
  "Invalid_throughput i x \<in> set (failed_validations (validation_loop rows))
   \<longleftrightarrow> i < length rows \<and> x = r_throughput_fps (rows ! i)
        \<and> \<not> (1 \<le> r_throughput_fps (rows ! i) \<and> r_throughput_fps (rows ! i) \<le> 10000)"
  unfolding mem_loop_failed throughput_row_failures by blast

lemma math_mem:
  "Mathematical_consistency i e a d \<in> set (failed_validations (validation_loop rows))
   \<longleftrightarrow> i < length rows
        \<and> e = (if r_power_watts (rows ! i) > 0 then r_throughput_fps (rows ! i) / r_power_watts (rows ! i) else 0)
        \<and> a = r_efficiency_fps_per_watt (rows ! i)
        \<and> d = \<bar>e - a\<bar>
        \<and> \<not> (d \<le> max 0.001 (a * 0.001))"
  unfolding mem_loop_failed math_row_failures by blast

lemma range_count_step:
  "range_validation (validation_checks (validate_row v ir))
   = range_validation (validation_checks v)
     + (if (10 \<le> r_power_watts (snd ir) \<and> r_power_watts (snd ir) \<le> 100)
           \<and> (20 \<le> r_temperature_celsius (snd ir) \<and> r_temperature_celsius (snd ir) \<le> 100)
        then 1 else 0)"
  unfolding validate_row_def range_block_def physical_block_def throughput_check_def
    latency_check_def consistency_block_def Let_def by simp

lemma range_count_foldl:
  "range_validation (validation_checks (foldl validate_row v xs))
   = range_validation (validation_checks v)
     + length (filter (\<lambda>ir. (10 \<le> r_power_watts (snd ir) \<and> r_power_watts (snd ir) \<le> 100)
           \<and> (20 \<le> r_temperature_celsius (snd ir) \<and> r_temperature_celsius (snd ir) \<le> 100)) xs)"
  by (induction xs arbitrary: v) (simp_all add: range_count_step)

lemma filter_snd_py_enumerate:
  "length (filter (\<lambda>ir. P (snd ir)) (py_enumerate k xs)) = length (filter P xs)"
  by (induction xs arbitrary: k) auto

lemma range_count_loop:
  "range_validation (validation_checks (validation_loop rows))
   = length (filter (\<lambda>r. (10 \<le> r_power_watts r \<and> r_power_watts r \<le> 100)
           \<and> (20 \<le> r_temperature_celsius r \<and> r_temperature_celsius r \<le> 100)) rows)"
  unfolding validation_loop_def range_count_foldl
  using filter_snd_py_enumerate [of "\<lambda>r. (10 \<le> r_power_watts r \<and> r_power_watts r \<le> 100)
           \<and> (20 \<le> r_temperature_celsius r \<and> r_temperature_celsius r \<le> 100)" 0 rows]
  by simp

lemma validate_row_total: "mv_total_measurements (validate_row v ir) = mv_total_measurements v"
  unfolding validate_row_def range_block_def physical_block_def throughput_check_def
    latency_check_def consistency_block_def Let_def by simp

lemma validation_loop_total: "mv_total_measurements (validation_loop rows) = length rows"
proof -
  have "mv_total_measurements (foldl validate_row v xs) = mv_total_measurements v" for v xs
    by (induction xs arbitrary: v) (simp_all add: validate_row_total)
  then show ?thesis by (simp add: validation_loop_def)
qed

lemma validate_measurements_returns:
  "rows \<noteq> [] \<Longrightarrow> \<exists>p. validate_measurements (Some rows) = Inr (validation_loop rows, p)"
  by (simp add: validate_measurements_def Let_def percentage_def validation_loop_total)

lemma efficiency_step_failed:
  "failed_measurements (efficiency_step i m vr) = failed_measurements vr @
     (if \<bar>efficiency_fps_per_watt m
           - (if power_consumption_watts m > 0 then throughput_fps m / power_consumption_watts m else 0)\<bar> > 0.01
         \<and> efficiency_fps_per_watt m > 0
      then [\<lparr>measurement_index = i, test = ''efficiency_calculation'',
             expected = (if power_consumption_watts m > 0
                         then throughput_fps m / power_consumption_watts m else 0),
             actual = efficiency_fps_per_watt m,
             abs_error = \<bar>efficiency_fps_per_watt m
                 - (if power_consumption_watts m > 0
                    then throughput_fps m / power_consumption_watts m else 0)\<bar>\<rparr>]
      else [])"
  unfolding efficiency_step_def Let_def by simp

lemma consistency_step_failed:
  "failed_measurements (consistency_step vr im) = failed_measurements vr @ measurement_failures im"
  unfolding measurement_failures_def consistency_step_def throughput_step_def Let_def
  by (simp add: efficiency_step_failed)

lemma efficiency_failure_mem:
  "(\<exists>f \<in> set (measurement_failures (i, m)). measurement_index f = j \<and> test f = ''efficiency_calculation'')
   \<longleftrightarrow> i = j
       \<and> efficiency_fps_per_watt m > 0
       \<and> \<bar>efficiency_fps_per_watt m
           - (if power_consumption_watts m > 0 then throughput_fps m / power_consumption_watts m else 0)\<bar> > 0.01"
  unfolding measurement_failures_def consistency_step_def fst_conv snd_conv throughput_step_def Let_def
  by (auto simp add: efficiency_step_failed)

lemma consistency_loop_failed:
  "failed_measurements (consistency_loop ms) = concat (map measurement_failures (py_enumerate 0 ms))"
proof -
  have "failed_measurements (foldl consistency_step vr xs)
        = failed_measurements vr @ concat (map measurement_failures xs)" for vr xs
    by (induction xs arbitrary: vr) (simp_all add: consistency_step_failed)
  then show ?thesis by (simp add: consistency_loop_def)
qed

lemma efficiency_failure_loop_mem:
  "(\<exists>f \<in> set (failed_measurements (consistency_loop ms)).
       measurement_index f = j \<and> test f = ''efficiency_calculation'')
   \<longleftrightarrow> j < length ms
       \<and> efficiency_fps_per_watt (ms ! j) > 0
       \<and> \<bar>efficiency_fps_per_watt (ms ! j)
           - (if power_consumption_watts (ms ! j) > 0
              then throughput_fps (ms ! j) / power_consumption_watts (ms ! j) else 0)\<bar> > 0.01"
proof -
  have "(\<exists>f \<in> set (failed_measurements (consistency_loop ms)).
       measurement_index f = j \<and> test f = ''efficiency_calculation'')
     \<longleftrightarrow> (\<exists>im \<in> set (py_enumerate 0 ms). \<exists>f \<in> set (measurement_failures im).
            measurement_index f = j \<and> test f = ''efficiency_calculation'')"
    unfolding consistency_loop_failed by auto
  also have "\<dots> \<longleftrightarrow> (\<exists>i < length ms. \<exists>f \<in> set (measurement_failures (i, ms ! i)).
            measurement_index f = j \<and> test f = ''efficiency_calculation'')"
    by (force simp: set_py_enumerate)
  also have "\<dots> \<longleftrightarrow> j < length ms
       \<and> efficiency_fps_per_watt (ms ! j) > 0
       \<and> \<bar>efficiency_fps_per_watt (ms ! j)
           - (if power_consumption_watts (ms ! j) > 0
              then throughput_fps (ms ! j) / power_consumption_watts (ms ! j) else 0)\<bar> > 0.01"
    unfolding efficiency_failure_mem by blast
  finally show ?thesis .
qed

subsection \<open>Consistency validator: the efficiency check\<close>

text \<open>
  Claim C2, as stated: the expected efficiency is throughput over power, 0 if the power
  is 0, and the check passes exactly when its distance to the recorded efficiency is at
  most the larger of the floor and the relative tolerance. The code takes 0 as the
  expected efficiency whenever the power is not positive, so a record of negative power
  that passes the claimed check is recorded as a failure by the strict validator.
\<close>

theorem C2_counterexample:
  "claimed_efficiency_pass 0.001 0.001 1 (- 1) (- 1)
   \<and> r_throughput_fps (sample_row 10 1 (- 1) (- 1) 50) = 1
   \<and> r_power_watts (sample_row 10 1 (- 1) (- 1) 50) = - 1
   \<and> r_efficiency_fps_per_watt (sample_row 10 1 (- 1) (- 1) 50) = - 1
   \<and> failed_validations (validation_loop [sample_row 10 1 (- 1) (- 1) 50])
       = [Mathematical_consistency 0 0 (- 1) 1]"
  by (simp add: claimed_efficiency_pass_def claimed_expected_efficiency_def
        validation_loop_failed row_failures_explicit sample_row_def)

text \<open>
  Claim C2, amended: the expected efficiency is throughput over power when the power is
  positive and 0 otherwise; it agrees with the claimed value for every non-negative
  power. Strict regime (\<^verbatim>\<open>validate_measurements\<close>): row \<open>i\<close> gets its
  mathematical-consistency failure entry exactly when the distance exceeds
  \<open>max 0.001 (efficiency * 0.001)\<close>. Looser regime
  (\<^verbatim>\<open>validate_mathematical_consistency\<close>): measurement \<open>j\<close> gets an efficiency failure
  entry exactly when its efficiency is positive and the distance exceeds 0.01, that is
  the floor 0.01 with relative tolerance 0, skipped when the efficiency is not positive.
\<close>

theorem C2_efficiency_check:
  assumes "i < length rows" and "j < length ms"
  shows
    "(Mathematical_consistency i
        (if r_power_watts (rows ! i) > 0 then r_throughput_fps (rows ! i) / r_power_watts (rows ! i) else 0)
        (r_efficiency_fps_per_watt (rows ! i))
        \<bar>(if r_power_watts (rows ! i) > 0 then r_throughput_fps (rows ! i) / r_power_watts (rows ! i) else 0)
           - r_efficiency_fps_per_watt (rows ! i)\<bar>
       \<in> set (failed_validations (validation_loop rows)))
     = (\<not> \<bar>(if r_power_watts (rows ! i) > 0 then r_throughput_fps (rows ! i) / r_power_watts (rows ! i) else 0)
             - r_efficiency_fps_per_watt (rows ! i)\<bar>
           \<le> max 0.001 (r_efficiency_fps_per_watt (rows ! i) * 0.001))
     \<and> (\<exists>f \<in> set (failed_measurements (consistency_loop ms)).
            measurement_index f = j \<and> test f = ''efficiency_calculation'')
       = (\<not> (efficiency_fps_per_watt (ms ! j) \<le> 0
              \<or> \<bar>(if power_consumption_watts (ms ! j) > 0
                   then throughput_fps (ms ! j) / power_consumption_watts (ms ! j) else 0)
                  - efficiency_fps_per_watt (ms ! j)\<bar>
                 \<le> max 0.01 (efficiency_fps_per_watt (ms ! j) * 0)))
     \<and> (0 \<le> r_power_watts (rows ! i) \<longrightarrow>
          (if r_power_watts (rows ! i) > 0 then r_throughput_fps (rows ! i) / r_power_watts (rows ! i) else 0)
          = claimed_expected_efficiency (r_throughput_fps (rows ! i)) (r_power_watts (rows ! i)))"
proof -
  have a: "\<bar>x - y\<bar> = \<bar>y - x\<bar>" for x y :: real by simp
  show ?thesis
    using assms
    unfolding math_mem efficiency_failure_loop_mem claimed_expected_efficiency_def
    by (auto simp: a [of "efficiency_fps_per_watt (ms ! j)"])
qed

theorem C2_witness:
  "Mathematical_consistency 0 10 20 10
     \<in> set (failed_validations (validation_loop [sample_row 10 100 10 20 50]))
   \<and> (\<exists>f \<in> set (failed_measurements
                  (consistency_loop [sample_measurement ''resnet18'' 1 1 10 100 10 20])).
         measurement_index f = 0 \<and> test f = ''efficiency_calculation'')
   \<and> claimed_expected_efficiency 100 10 = 10"
  using C2_efficiency_check [of 0 "[sample_row 10 100 10 20 50]"
                                0 "[sample_measurement ''resnet18'' 1 1 10 100 10 20]"]
  by (simp add: sample_row_def sample_measurement_def)

subsection \<open>Measurement validator: range checks\<close>

text \<open>
  Claim C7, as stated: every out-of-range value of latency, throughput, power and
  temperature is recorded in the list of failures. A row whose power is 5 W, with every
  other value in range and a consistent efficiency, runs to completion and leaves the
  list of failures empty.
\<close>

theorem C7_counterexample:
  "\<not> (10 \<le> r_power_watts (sample_row 10 100 5 20 50)
       \<and> r_power_watts (sample_row 10 100 5 20 50) \<le> 100)
   \<and> (\<exists>p. validate_measurements (Some [sample_row 10 100 5 20 50])
            = Inr (validation_loop [sample_row 10 100 5 20 50], p))
   \<and> failed_validations (validation_loop [sample_row 10 100 5 20 50]) = []"
  by (simp add: validate_measurements_returns validation_loop_failed row_failures_explicit
        sample_row_def)

text \<open>
  Claim C7, amended. For every row \<open>i\<close> of the data frame: its latency is recorded in
  the list of failures exactly when it is outside [0.1, 1000], and its throughput
  exactly when it is outside [1, 10000]. The test of power in [10, 100] and temperature
  in [20, 100] adds nothing to the list: its outcome is the counter
  \<open>range_validation\<close>, which counts the rows that are in both ranges. The run does not
  halt on a failure: it returns the state after the last row.
\<close>

theorem C7_range_failures:
  assumes "i < length rows"
  shows "(Invalid_latency i (r_latency_ms (rows ! i)) \<in> set (failed_validations (validation_loop rows)))
           = (\<not> (0.1 \<le> r_latency_ms (rows ! i) \<and> r_latency_ms (rows ! i) \<le> 1000))
       \<and> (Invalid_throughput i (r_throughput_fps (rows ! i)) \<in> set (failed_validations (validation_loop rows)))
           = (\<not> (1 \<le> r_throughput_fps (rows ! i) \<and> r_throughput_fps (rows ! i) \<le> 10000))
       \<and> failed_validations (range_block (rows ! i) v) = failed_validations v
       \<and> range_validation (validation_checks (validation_loop rows))
           = length (filter (\<lambda>r. (10 \<le> r_power_watts r \<and> r_power_watts r \<le> 100)
               \<and> (20 \<le> r_temperature_celsius r \<and> r_temperature_celsius r \<le> 100)) rows)
       \<and> (\<exists>p. validate_measurements (Some rows) = Inr (validation_loop rows, p))"
proof -
  from assms have "rows \<noteq> []" by auto
  then show ?thesis
    using assms validate_measurements_returns [of rows]
    by (simp add: invalid_latency_mem invalid_throughput_mem range_block_failed range_count_loop)
qed

theorem C7_witness:
  "Invalid_latency 0 2000
     \<in> set (failed_validations (validation_loop [sample_row 2000 100 5 20 50]))
   \<and> Invalid_throughput 0 100
     \<notin> set (failed_validations (validation_loop [sample_row 2000 100 5 20 50]))
   \<and> range_validation (validation_checks (validation_loop [sample_row 2000 100 5 20 50])) = 0"
  using C7_range_failures [of 0 "[sample_row 2000 100 5 20 50]"]
  by (simp add: sample_row_def)

subsection \<open>Statistics aggregator: helper lemmas\<close>

lemma std_ddof1_claimed: "2 \<le> length xs \<Longrightarrow> std_ddof1 xs = claimed_std xs"
proof -
  assume "2 \<le> length xs"
  then have e: "real (length xs) - 1 = real (length xs - 1)" by (simp add: of_nat_diff)
  show ?thesis unfolding std_ddof1_def claimed_std_def np_mean_def e by (rule refl)
qed

lemma metric_entry_interval:
  "2 \<le> length xs \<Longrightarrow>
   lower (confidence_interval_95 (metric_entry t xs)) = fst (claimed_interval t xs)
   \<and> upper (confidence_interval_95 (metric_entry t xs)) = snd (claimed_interval t xs)
   \<and> margin_of_error (confidence_interval_95 (metric_entry t xs)) = claimed_margin t xs"
proof -
  assume n: "2 \<le> length xs"
  then have d: "int (length xs - 1) = int (length xs) - 1" by (simp add: of_nat_diff)
  have q: "(1 + 0.95) / 2 = (0.975 :: real)" by simp
  have m: "claimed_margin t xs
           = t ((1 + 0.95) / 2) (int (length xs) - 1) * (std_ddof1 xs / sqrt (real (length xs)))"
    unfolding claimed_margin_def d q std_ddof1_claimed [OF n] by simp
  show ?thesis
    unfolding claimed_interval_def fst_conv snd_conv m metric_entry_def Let_def np_mean_def
    by simp
qed

lemma sr_base_summary:
  "sr_mean (base_summary q xs) = np_mean xs"
  "sr_std (base_summary q xs) = np_std_ddof1 xs"
  "sr_confidence_interval_95 (base_summary q xs) = None"
  "sr_margin_of_error (base_summary q xs) = None"
  by (simp_all add: base_summary_def)

lemma ci_step_power:
  "ci_step t ms (''power_consumption_watts'', s)
   = Inr (''power_consumption_watts'', with_interval t (map power_consumption_watts ms) s)"
  by (simp add: ci_step_def Let_def with_interval_def)

lemma ci_step_throughput:
  "ci_step t ms (''throughput_fps'', s)
   = Inr (''throughput_fps'', with_interval t (map throughput_fps ms) s)"
  by (simp add: ci_step_def Let_def with_interval_def)

lemma ci_step_efficiency:
  "ci_step t ms (''efficiency_fps_per_watt'', s)
   = Inr (''efficiency_fps_per_watt'', with_interval t (map efficiency_fps_per_watt ms) s)"
  by (simp add: ci_step_def Let_def with_interval_def)

lemma ci_step_temperature:
  "ci_step t ms (''temperature_celsius'', s) = Inr (''temperature_celsius'', s)"
  by (simp add: ci_step_def Let_def)

lemma reproduce_summary_statistics_eq:
  "ms \<noteq> [] \<Longrightarrow> reproduce_summary_statistics t ms = Inr
     [(''power_consumption_watts'',
         with_interval t (map power_consumption_watts ms) (base_summary True (map power_consumption_watts ms))),
      (''throughput_fps'',
         with_interval t (map throughput_fps ms) (base_summary True (map throughput_fps ms))),
      (''efficiency_fps_per_watt'',
         with_interval t (map efficiency_fps_per_watt ms) (base_summary True (map efficiency_fps_per_watt ms))),
      (''temperature_celsius'', base_summary False (map temperature_celsius ms))]"
  by (simp add: reproduce_summary_statistics_def initial_stats_def
        ci_step_power ci_step_throughput ci_step_efficiency ci_step_temperature)

lemma with_interval_claimed:
  "2 \<le> length xs \<Longrightarrow>
   sr_confidence_interval_95 (with_interval t xs (base_summary q xs))
     = Some (Finite (fst (claimed_interval t xs)), Finite (snd (claimed_interval t xs)))
   \<and> sr_margin_of_error (with_interval t xs (base_summary q xs)) = Some (Finite (claimed_margin t xs))"
proof -
  assume n: "2 \<le> length xs"
  then have d: "int (length xs - 1) = int (length xs) - 1" by (simp add: of_nat_diff)
  from n have s: "np_std_ddof1 xs = Finite (std_ddof1 xs)" by (simp add: np_std_ddof1_def)
  have m: "claimed_margin t xs
           = t 0.975 (int (length xs) - 1) * (std_ddof1 xs / sqrt (real (length xs)))"
    unfolding claimed_margin_def d std_ddof1_claimed [OF n] by simp
  show ?thesis
    unfolding claimed_interval_def fst_conv snd_conv m with_interval_def sr_base_summary s
      np_map_def np_mean_def
    by simp
qed

lemma performance_stats_eq:
  "2 \<le> length rows \<Longrightarrow> performance_stats t rows =
     [(''latency_ms'', metric_entry t (map r_latency_ms rows)),
      (''throughput_fps'', metric_entry t (map r_throughput_fps rows)),
      (''power_watts'', metric_entry t (map r_power_watts rows)),
      (''efficiency_fps_per_watt'', metric_entry t (map r_efficiency_fps_per_watt rows)),
      (''temperature_celsius'', metric_entry t (map r_temperature_celsius rows))]"
  by (simp add: performance_stats_def metrics_def metric_statistics_def dict_set_def)

lemma performance_stats_few: "length rows < 2 \<Longrightarrow> performance_stats t rows = []"
  by (simp add: performance_stats_def metrics_def metric_statistics_def)

lemma report_of_no_measurements:
  "extract_all_measurements d = [] \<Longrightarrow> generate_validation_report t d = Inl ZeroDivisionError"
  by (simp add: generate_validation_report_def Let_def validate_mathematical_consistency_def
        consistency_loop_def success_rate_def)

subsection \<open>Statistics aggregator: the confidence interval\<close>

text \<open>
  Claim C1. For a series \<open>xs\<close> of at least two samples the 95% confidence interval
  that the code stores is \<open>[mean - margin, mean + margin]\<close> with
  \<open>margin = t(0.975, n - 1) * std / sqrt n\<close>, where \<open>std\<close> is the Bessel-corrected sample
  standard deviation and \<open>t\<close> the Student-t quantile with \<open>n - 1\<close> degrees of freedom.
  This holds for the entry \<^verbatim>\<open>calculate_real_statistics\<close> builds for each of its metrics
  (\<open>metric_entry\<close>, stored by \<open>performance_stats\<close>), and for the power, throughput and
  efficiency entries of \<^verbatim>\<open>reproduce_summary_statistics\<close>.
\<close>

theorem C1_confidence_interval:
  assumes "2 \<le> length xs" and "2 \<le> length rows" and "2 \<le> length ms"
  shows
    "metric_statistics t xs = Some (metric_entry t xs)
     \<and> lower (confidence_interval_95 (metric_entry t xs)) = fst (claimed_interval t xs)
     \<and> upper (confidence_interval_95 (metric_entry t xs)) = snd (claimed_interval t xs)
     \<and> margin_of_error (confidence_interval_95 (metric_entry t xs)) = claimed_margin t xs
     \<and> ps_std (metric_entry t xs) = claimed_std xs
     \<and> performance_stats t rows
         = map (\<lambda>(name, col). (name, metric_entry t (map col rows))) metrics
     \<and> (\<exists>stats p tp e.
           reproduce_summary_statistics t ms = Inr stats
           \<and> map_of stats ''power_consumption_watts'' = Some p
           \<and> sr_confidence_interval_95 p
               = Some (Finite (fst (claimed_interval t (map power_consumption_watts ms))),
                       Finite (snd (claimed_interval t (map power_consumption_watts ms))))
           \<and> sr_margin_of_error p = Some (Finite (claimed_margin t (map power_consumption_watts ms)))
           \<and> sr_std p = Finite (claimed_std (map power_consumption_watts ms))
           \<and> map_of stats ''throughput_fps'' = Some tp
           \<and> sr_confidence_interval_95 tp
               = Some (Finite (fst (claimed_interval t (map throughput_fps ms))),
                       Finite (snd (claimed_interval t (map throughput_fps ms))))
           \<and> sr_margin_of_error tp = Some (Finite (claimed_margin t (map throughput_fps ms)))
           \<and> sr_std tp = Finite (claimed_std (map throughput_fps ms))
           \<and> map_of stats ''efficiency_fps_per_watt'' = Some e
           \<and> sr_confidence_interval_95 e
               = Some (Finite (fst (claimed_interval t (map efficiency_fps_per_watt ms))),
                       Finite (snd (claimed_interval t (map efficiency_fps_per_watt ms))))
           \<and> sr_margin_of_error e = Some (Finite (claimed_margin t (map efficiency_fps_per_watt ms)))
           \<and> sr_std e = Finite (claimed_std (map efficiency_fps_per_watt ms)))"
proof -
  from assms(1) have a: "metric_statistics t xs = Some (metric_entry t xs)"
    by (simp add: metric_statistics_def)
  have b: "ps_std (metric_entry t xs) = claimed_std xs"
    using std_ddof1_claimed [OF assms(1)] by (simp add: metric_entry_def Let_def)
  have c: "performance_stats t rows
         = map (\<lambda>(name, col). (name, metric_entry t (map col rows))) metrics"
    unfolding performance_stats_eq [OF assms(2)] by (simp add: metrics_def)
  from assms(3) have ne: "ms \<noteq> []" by auto
  have len: "2 \<le> length (map f ms)" for f :: "measurement \<Rightarrow> real"
    using assms(3) by simp
  have sd: "sr_std (with_interval t (map f ms) (base_summary True (map f ms)))
            = Finite (claimed_std (map f ms))" for f :: "measurement \<Rightarrow> real"
    using std_ddof1_claimed [OF len [of f]] assms(3)
    by (simp add: with_interval_def sr_base_summary np_std_ddof1_def)
  have d: "\<exists>stats p tp e.
           reproduce_summary_statistics t ms = Inr stats
           \<and> map_of stats ''power_consumption_watts'' = Some p
           \<and> sr_confidence_interval_95 p
               = Some (Finite (fst (claimed_interval t (map power_consumption_watts ms))),
                       Finite (snd (claimed_interval t (map power_consumption_watts ms))))
           \<and> sr_margin_of_error p = Some (Finite (claimed_margin t (map power_consumption_watts ms)))
           \<and> sr_std p = Finite (claimed_std (map power_consumption_watts ms))
           \<and> map_of stats ''throughput_fps'' = Some tp
           \<and> sr_confidence_interval_95 tp
               = Some (Finite (fst (claimed_interval t (map throughput_fps ms))),
                       Finite (snd (claimed_interval t (map throughput_fps ms))))
           \<and> sr_margin_of_error tp = Some (Finite (claimed_margin t (map throughput_fps ms)))
           \<and> sr_std tp = Finite (claimed_std (map throughput_fps ms))
           \<and> map_of stats ''efficiency_fps_per_watt'' = Some e
           \<and> sr_confidence_interval_95 e
               = Some (Finite (fst (claimed_interval t (map efficiency_fps_per_watt ms))),
                       Finite (snd (claimed_interval t (map efficiency_fps_per_watt ms))))
           \<and> sr_margin_of_error e = Some (Finite (claimed_margin t (map efficiency_fps_per_watt ms)))
           \<and> sr_std e = Finite (claimed_std (map efficiency_fps_per_watt ms))"
    unfolding reproduce_summary_statistics_eq [OF ne]
    using with_interval_claimed [OF len [of power_consumption_watts], of t True]
      with_interval_claimed [OF len [of throughput_fps], of t True]
      with_interval_claimed [OF len [of efficiency_fps_per_watt], of t True]
      sd [of power_consumption_watts] sd [of throughput_fps] sd [of efficiency_fps_per_watt]
    by simp
  show ?thesis
    using a b c d metric_entry_interval [OF assms(1), of t] by blast
qed

theorem C1_witness:
  "lower (confidence_interval_95 (metric_entry (\<lambda>p df. 2) [40, 60]))
     = fst (claimed_interval (\<lambda>p df. 2) [40, 60])
   \<and> upper (confidence_interval_95 (metric_entry (\<lambda>p df. 2) [40, 60]))
     = snd (claimed_interval (\<lambda>p df. 2) [40, 60])
   \<and> claimed_margin (\<lambda>p df. 2) [40, 60] = 20
   \<and> map fst (performance_stats (\<lambda>p df. 2)
        [sample_row 10 100 10 10 40, sample_row 10 100 10 10 60])
      = [''latency_ms'', ''throughput_fps'', ''power_watts'', ''efficiency_fps_per_watt'',
         ''temperature_celsius'']
   \<and> (\<exists>stats. reproduce_summary_statistics (\<lambda>p df. 2)
         [sample_measurement ''resnet18'' 1 1 10 100 10 10,
          sample_measurement ''resnet18'' 1 1 10 100 10 10] = Inr stats)"
proof -
  have "sqrt 200 / sqrt 2 = sqrt 100" by (simp add: real_sqrt_divide [symmetric])
  also have "\<dots> = 10" using real_sqrt_abs [of 10] by simp
  finally have m: "claimed_margin (\<lambda>p df. 2) [40, 60] = 20"
    by (simp add: claimed_margin_def claimed_std_def power2_eq_square)
  show ?thesis
    using C1_confidence_interval [of "[40, 60]"
        "[sample_row 10 100 10 10 40, sample_row 10 100 10 10 60]"
        "[sample_measurement ''resnet18'' 1 1 10 100 10 10,
          sample_measurement ''resnet18'' 1 1 10 100 10 10]" "\<lambda>p df. 2"] m
    by (auto simp: metrics_def)
qed

text \<open>
  Claim C6, as stated: a confidence interval is computed for power, throughput and
  efficiency only, and never for temperature. \<^verbatim>\<open>calculate_real_statistics\<close> computes one
  for temperature: on two rows with temperatures 40 and 60 its temperature entry holds
  the interval around the mean 50.
\<close>

theorem C6_counterexample:
  "\<exists>st. map_of (performance_stats (\<lambda>p df. 2)
              [sample_row 10 100 10 10 40, sample_row 10 100 10 10 60])
            ''temperature_celsius'' = Some st
        \<and> ps_count st = 2 \<and> ps_mean st = 50
        \<and> confidence_interval_95 st
            = \<lparr>lower = fst (claimed_interval (\<lambda>p df. 2) [40, 60]),
               upper = snd (claimed_interval (\<lambda>p df. 2) [40, 60]),
               margin_of_error = claimed_margin (\<lambda>p df. 2) [40, 60]\<rparr>"
proof -
  have 2: "2 \<le> length [sample_row 10 100 10 10 40, sample_row 10 100 10 10 60]" by simp
  have e: "map r_temperature_celsius [sample_row 10 100 10 10 40, sample_row 10 100 10 10 60]
           = [40, 60]" by (simp add: sample_row_def)
  have c: "confidence_interval_95 (metric_entry (\<lambda>p df. 2) [40, 60])
            = \<lparr>lower = fst (claimed_interval (\<lambda>p df. 2) [40, 60]),
               upper = snd (claimed_interval (\<lambda>p df. 2) [40, 60]),
               margin_of_error = claimed_margin (\<lambda>p df. 2) [40, 60]\<rparr>"
    using metric_entry_interval [of "[40, 60]" "\<lambda>p df. 2"]
    by (cases "confidence_interval_95 (metric_entry (\<lambda>p df. 2) [40, 60])") simp
  have m: "ps_count (metric_entry (\<lambda>p df. 2) [40, 60]) = 2
           \<and> ps_mean (metric_entry (\<lambda>p df. 2) [40, 60]) = 50"
    by (simp add: metric_entry_def Let_def np_mean_def)
  show ?thesis
    unfolding performance_stats_eq [OF 2] e using c m by simp
qed

text \<open>
  Claim C6, amended. \<^verbatim>\<open>reproduce_summary_statistics\<close> stores an interval and a margin
  for power, throughput and efficiency and none for temperature.
  \<^verbatim>\<open>calculate_real_statistics\<close> stores an entry with its interval for each of its five
  metrics, latency and temperature included, when the data frame has at least two rows,
  and no entry at all when it has fewer.
\<close>

theorem C6_interval_metrics:
  assumes "ms \<noteq> []" and "2 \<le> length rows" and "length few < 2"
  shows
    "(\<exists>stats p tp e tc.
        reproduce_summary_statistics t ms = Inr stats
        \<and> map fst stats = [''power_consumption_watts'', ''throughput_fps'',
                            ''efficiency_fps_per_watt'', ''temperature_celsius'']
        \<and> map_of stats ''power_consumption_watts'' = Some p
        \<and> sr_confidence_interval_95 p \<noteq> None \<and> sr_margin_of_error p \<noteq> None
        \<and> map_of stats ''throughput_fps'' = Some tp
        \<and> sr_confidence_interval_95 tp \<noteq> None \<and> sr_margin_of_error tp \<noteq> None
        \<and> map_of stats ''efficiency_fps_per_watt'' = Some e
        \<and> sr_confidence_interval_95 e \<noteq> None \<and> sr_margin_of_error e \<noteq> None
        \<and> map_of stats ''temperature_celsius'' = Some tc
        \<and> sr_confidence_interval_95 tc = None \<and> sr_margin_of_error tc = None)
     \<and> performance_stats t rows
         = [(''latency_ms'', metric_entry t (map r_latency_ms rows)),
            (''throughput_fps'', metric_entry t (map r_throughput_fps rows)),
            (''power_watts'', metric_entry t (map r_power_watts rows)),
            (''efficiency_fps_per_watt'', metric_entry t (map r_efficiency_fps_per_watt rows)),
            (''temperature_celsius'', metric_entry t (map r_temperature_celsius rows))]
     \<and> performance_stats t few = []"
  unfolding reproduce_summary_statistics_eq [OF assms(1)] performance_stats_eq [OF assms(2)]
    performance_stats_few [OF assms(3)]
  by (simp add: with_interval_def sr_base_summary)

theorem C6_witness:
  "(\<exists>stats tc.
        reproduce_summary_statistics (\<lambda>p df. 2) [sample_measurement ''resnet18'' 1 1 10 100 10 10]
          = Inr stats
        \<and> map_of stats ''temperature_celsius'' = Some tc
        \<and> sr_confidence_interval_95 tc = None)
   \<and> map fst (performance_stats (\<lambda>p df. 2)
        [sample_row 10 100 10 10 40, sample_row 10 100 10 10 60])
      = [''latency_ms'', ''throughput_fps'', ''power_watts'', ''efficiency_fps_per_watt'',
         ''temperature_celsius'']
   \<and> performance_stats (\<lambda>p df. 2) [sample_row 10 100 10 10 40] = []"
  using C6_interval_metrics [of "[sample_measurement ''resnet18'' 1 1 10 100 10 10]"
      "[sample_row 10 100 10 10 40, sample_row 10 100 10 10 60]"
      "[sample_row 10 100 10 10 40]" "\<lambda>p df. 2"]
  by auto

subsection \<open>Empty datasets\<close>

text \<open>
  Claim C8. A dataset without valid records is meant to give empty aggregates with no
  exception, every division being guarded. On the empty list of measurements
  \<^verbatim>\<open>validate_mathematical_consistency\<close> divides by its zero counter of checks, and on the
  empty data frame \<^verbatim>\<open>validate_measurements\<close> divides by its zero total: both raise
  \<^verbatim>\<open>ZeroDivisionError\<close>, and so does the report on a document whose only record is
  flagged invalid (lemma \<open>report_of_no_measurements\<close>: on every document without valid
  records).
\<close>

theorem C8_empty_dataset_raises:
  "validate_mathematical_consistency [] = Inl ZeroDivisionError
   \<and> validate_measurements (Some []) = Inl ZeroDivisionError
   \<and> extract_all_measurements
        \<lparr>detailed_results =
           Some [(''resnet18'',
                  [(''cores1_batch1'',
                    Some [(sample_measurement ''resnet18'' 1 1 10 100 10 10)\<lparr>is_valid := Some False\<rparr>])])],
         summary_total_measurements = Some 1\<rparr> = []
   \<and> generate_validation_report t
        \<lparr>detailed_results =
           Some [(''resnet18'',
                  [(''cores1_batch1'',
                    Some [(sample_measurement ''resnet18'' 1 1 10 100 10 10)\<lparr>is_valid := Some False\<rparr>])])],
         summary_total_measurements = Some 1\<rparr> = Inl ZeroDivisionError"
proof -
  have e: "extract_all_measurements
        \<lparr>detailed_results =
           Some [(''resnet18'',
                  [(''cores1_batch1'',
                    Some [(sample_measurement ''resnet18'' 1 1 10 100 10 10)\<lparr>is_valid := Some False\<rparr>])])],
         summary_total_measurements = Some 1\<rparr> = []"
    by (simp add: extract_all_measurements_def config_measurements_def dict_get_def)
  have "validate_mathematical_consistency [] = Inl ZeroDivisionError"
    by (simp add: validate_mathematical_consistency_def consistency_loop_def success_rate_def)
  moreover have "validate_measurements (Some []) = Inl ZeroDivisionError"
    by (simp add: validate_measurements_def validation_loop_def percentage_def Let_def)
  ultimately show ?thesis
    using e report_of_no_measurements [OF e] by simp
qed

subsection \<open>Dictionaries in insertion order\<close>

lemma dict_update_keys:
  "map fst (dict_update k d f al)
   = (if k \<in> set (map fst al) then map fst al else map fst al @ [k])"
  by (induction al) force+

lemma dict_update_distinct:
  "distinct (map fst al) \<Longrightarrow> distinct (map fst (dict_update k d f al))"
  by (simp add: dict_update_keys)

lemma map_of_dict_update:
  "map_of (dict_update k d f al)
   = (map_of al)(k \<mapsto> f (case map_of al k of None \<Rightarrow> d | Some v \<Rightarrow> v))"
  by (induction al) (auto simp: fun_eq_iff)

lemma map_of_dict_set: "map_of (dict_set k v al) = (map_of al)(k \<mapsto> v)"
  by (simp add: dict_set_def map_of_dict_update)

lemma dict_set_keys:
  "map fst (dict_set k v al)
   = (if k \<in> set (map fst al) then map fst al else map fst al @ [k])"
  by (simp add: dict_set_def dict_update_keys)

lemma dict_update_values:
  assumes "\<forall>v \<in> snd ` set al. P v" and "P (f d)" and "\<forall>v. P v \<longrightarrow> P (f v)"
  shows "\<forall>v \<in> snd ` set (dict_update k d f al). P v"
  using assms by (induction al) (force split: if_splits)+

lemma map_of_distinct_mem:
  "distinct (map fst al) \<Longrightarrow> (k, v) \<in> set al \<Longrightarrow> map_of al k = Some v"
  by simp

text \<open>Groups of the scaling analysis: distinct keys on both levels.\<close>

lemma scaling_analysis_invariant:
  "distinct (map fst (scaling_analysis ms))
   \<and> (\<forall>cd \<in> snd ` set (scaling_analysis ms). distinct (map fst cd))"
proof -
  have "distinct (map fst g) \<and> (\<forall>cd \<in> snd ` set g. distinct (map fst cd))
        \<Longrightarrow> distinct (map fst (foldl (\<lambda>groups m.
              dict_update (combo_key m) []
                (dict_update (dict_get (core_count m) 1) [] (\<lambda>l. l @ [m])) groups) g ms))
          \<and> (\<forall>cd \<in> snd ` set (foldl (\<lambda>groups m.
              dict_update (combo_key m) []
                (dict_update (dict_get (core_count m) 1) [] (\<lambda>l. l @ [m])) groups) g ms).
                distinct (map fst cd))" for g
  proof (induction ms arbitrary: g)
    case Nil
    then show ?case by simp
  next
    case (Cons m ms)
    let ?g = "dict_update (combo_key m) []
                (dict_update (dict_get (core_count m) 1) [] (\<lambda>l. l @ [m])) g"
    have 1: "distinct (map fst ?g)" using Cons.prems by (simp add: dict_update_distinct)
    have 2: "\<forall>cd \<in> snd ` set ?g. distinct (map fst cd)"
      by (rule dict_update_values) (use Cons.prems in \<open>auto simp: dict_update_distinct\<close>)
    show ?case using Cons.IH [of ?g] 1 2 by simp
  qed
  from this [of "[]"] show ?thesis by (simp add: scaling_analysis_def)
qed

lemma foldl_dict_set_fresh:
  assumes "distinct (map fst xs)" and "set (map fst acc) \<inter> set (map fst xs) = {}"
  shows "foldl (\<lambda>d (k, v). if P k then dict_set k (g k v) d else d) acc xs
         = acc @ map (\<lambda>(k, v). (k, g k v)) (filter (\<lambda>(k, v). P k) xs)"
  using assms
proof (induction xs arbitrary: acc)
  case Nil
  then show ?case by simp
next
  case (Cons x xs)
  obtain k v where x: "x = (k, v)" by (cases x)
  have fresh: "k \<notin> set (map fst acc)" using Cons.prems(2) x by auto
  have set_fresh: "dict_set k w acc = acc @ [(k, w)]" for w
    using fresh unfolding dict_set_def by (induction acc) auto
  show ?case
  proof (cases "P k")
    case True
    have "set (map fst (acc @ [(k, g k v)])) \<inter> set (map fst xs) = {}"
      using Cons.prems x by auto
    with Cons.IH [of "acc @ [(k, g k v)]"] Cons.prems(1) True x set_fresh
    show ?thesis by simp
  next
    case False
    have "set (map fst acc) \<inter> set (map fst xs) = {}" using Cons.prems(2) by auto
    with Cons.IH [of acc] Cons.prems(1) False x show ?thesis by simp
  qed
qed

lemma core_performance_of_eq:
  "distinct (map fst cd) \<Longrightarrow>
   core_performance_of cd = map (\<lambda>(c, l). (c, core_summary l)) cd"
proof -
  assume d: "distinct (map fst cd)"
  have "(\<lambda>cp (cores, measurements_list). dict_set cores (core_summary measurements_list) cp)
        = (\<lambda>d (k, v). if True then dict_set k (core_summary v) d else d)"
    by (simp add: fun_eq_iff)
  then have "core_performance_of cd
        = foldl (\<lambda>d (k, v). if (\<lambda>_. True) k then dict_set k ((\<lambda>_. core_summary) k v) d else d) [] cd"
    by (simp add: core_performance_of_def)
  also have "\<dots> = [] @ map (\<lambda>(k, v). (k, (\<lambda>_. core_summary) k v)) (filter (\<lambda>(k, v). (\<lambda>_. True) k) cd)"
    by (rule foldl_dict_set_fresh) (use d in auto)
  finally show ?thesis by (simp add: case_prod_unfold)
qed


lemma map_of_map_values:
  "map_of (map (\<lambda>(k, v). (k, g k v)) al) k = map_option (g k) (map_of al k)"
  by (induction al) auto


subsection \<open>Scaling analyzer: helper lemmas\<close>

lemma scaling_step_eq:
  "scaling_step res (key, cd)
   = (case group_entry cd of None \<Rightarrow> res | Some r \<Rightarrow> dict_set key r res)"
  by (simp add: scaling_step_def group_entry_def Let_def split: option.splits)

lemma foldl_scaling_step_map_of:
  "distinct (map fst gs) \<Longrightarrow>
   map_of (foldl scaling_step acc gs) k
   = (case map_of gs k of
        None \<Rightarrow> map_of acc k
      | Some cd \<Rightarrow> (case group_entry cd of None \<Rightarrow> map_of acc k | Some r \<Rightarrow> Some r))"
proof (induction gs arbitrary: acc)
  case Nil
  then show ?case by simp
next
  case (Cons g gs)
  obtain key cd where g: "g = (key, cd)" by (cases g)
  from Cons.prems g have fresh: "map_of gs key = None"
    by (simp add: map_of_eq_None_iff)
  from Cons.prems have d: "distinct (map fst gs)" by simp
  show ?case
    unfolding g foldl_Cons Cons.IH [OF d] scaling_step_eq
    using fresh by (auto simp: map_of_dict_set split: option.splits)
qed



lemma group_entry_none:
  assumes d: "distinct (map fst cd)"
      and "map_of cd 1 = None \<or> length cd < 2"
  shows "group_entry cd = None"
proof (cases "length cd < 2")
  case True
  then show ?thesis by (simp add: group_entry_def)
next
  case False
  with assms(2) have "map_of cd 1 = None" by simp
  then have "map_of (map (\<lambda>(c, l). (c, core_summary l)) cd) 1 = None"
    by (simp add: map_of_map_values [of "\<lambda>_. core_summary"])
  then show ?thesis by (simp add: group_entry_def core_performance_of_eq [OF d])
qed

lemma core_keys:
  "str_int 1 = ''1''"
  "str_int 2 = ''2''"
  "str_int 4 = ''4''"
  by (simp_all add: str_int_def str_nat.simps digit_char_def)

lemma multicore_step_empty: "core_rows rows c = [] \<Longrightarrow> multicore_step rows st c = st"
  by (simp add: multicore_step_def Let_def)

lemma multicore_step_1:
  "core_rows rows 1 \<noteq> [] \<Longrightarrow>
   multicore_step rows (sd, b) 1
   = (dict_set ''1_cores'' (entry_for (core_rows rows 1) 1 1) sd,
      Some (np_mean (map r_throughput_fps (core_rows rows 1))))"
  by (simp add: multicore_step_def Let_def core_keys entry_for_def)

lemma multicore_step_2:
  "core_rows rows 2 \<noteq> [] \<Longrightarrow>
   multicore_step rows (sd, b) 2
   = (dict_set ''2_cores''
        (entry_for (core_rows rows 2)
           (case b of None \<Rightarrow> 0
            | Some x \<Rightarrow> if x \<noteq> 0 then np_mean (map r_throughput_fps (core_rows rows 2)) / x else 0) 2)
        sd, b)"
  by (simp add: multicore_step_def Let_def core_keys entry_for_def)

lemma multicore_step_4:
  "core_rows rows 4 \<noteq> [] \<Longrightarrow>
   multicore_step rows (sd, b) 4
   = (dict_set ''4_cores''
        (entry_for (core_rows rows 4)
           (case b of None \<Rightarrow> 0
            | Some x \<Rightarrow> if x \<noteq> 0 then np_mean (map r_throughput_fps (core_rows rows 4)) / x else 0) 4)
        sd, b)"
  by (simp add: multicore_step_def Let_def core_keys entry_for_def)

lemma multicore_no_baseline:
  assumes "core_rows (resnet18_batch1 rows) 1 = []"
  shows "scaling_details (analyze_multicore_scaling rows)
         = (if core_rows (resnet18_batch1 rows) 2 = [] then []
            else [(''2_cores'', entry_for (core_rows (resnet18_batch1 rows) 2) 0 2)])
           @ (if core_rows (resnet18_batch1 rows) 4 = [] then []
              else [(''4_cores'', entry_for (core_rows (resnet18_batch1 rows) 4) 0 4)])"
  using assms
  by (simp add: analyze_multicore_scaling_def Let_def multicore_step_empty
        multicore_step_2 multicore_step_4 dict_set_def)

lemma multicore_baseline:
  assumes "core_rows (resnet18_batch1 rows) 1 \<noteq> []"
  shows "scaling_details (analyze_multicore_scaling rows)
         = [(''1_cores'', entry_for (core_rows (resnet18_batch1 rows) 1) 1 1)]
           @ (if core_rows (resnet18_batch1 rows) 2 = [] then []
              else [(''2_cores'', entry_for (core_rows (resnet18_batch1 rows) 2)
                       (if np_mean (map r_throughput_fps (core_rows (resnet18_batch1 rows) 1)) \<noteq> 0
                        then np_mean (map r_throughput_fps (core_rows (resnet18_batch1 rows) 2))
                             / np_mean (map r_throughput_fps (core_rows (resnet18_batch1 rows) 1))
                        else 0) 2)])
           @ (if core_rows (resnet18_batch1 rows) 4 = [] then []
              else [(''4_cores'', entry_for (core_rows (resnet18_batch1 rows) 4)
                       (if np_mean (map r_throughput_fps (core_rows (resnet18_batch1 rows) 1)) \<noteq> 0
                        then np_mean (map r_throughput_fps (core_rows (resnet18_batch1 rows) 4))
                             / np_mean (map r_throughput_fps (core_rows (resnet18_batch1 rows) 1))
                        else 0) 4)])"
  using assms
  by (simp add: analyze_multicore_scaling_def Let_def multicore_step_empty
        multicore_step_1 multicore_step_2 multicore_step_4 dict_set_def)

subsection \<open>Dictionary keys\<close>

text \<open>
  The keys that the f-strings build determine the fields they are built from: a rendered
  integer has digits and at most a leading minus sign, and no two integers are rendered
  alike.
\<close>

lemma digit_char_key_digit: "d < 10 \<Longrightarrow> key_digit (digit_char d) \<and> digit_char d \<noteq> CHR ''-''"
proof -
  assume "d < 10"
  then have "d \<in> {0, 1, 2, 3, 4, 5, 6, 7, 8, 9}" by auto
  then show ?thesis by (auto simp: digit_char_def key_digit_def)
qed

lemma digit_char_inj: "a < 10 \<Longrightarrow> b < 10 \<Longrightarrow> digit_char a = digit_char b \<Longrightarrow> a = b"
proof -
  assume a: "a < 10" and b: "b < 10" and e: "digit_char a = digit_char b"
  have d: "distinct ''0123456789''" by simp
  have "length ''0123456789'' = 10" by simp
  with a b e d show ?thesis
    unfolding digit_char_def by (simp add: nth_eq_iff_index_eq)
qed

lemma str_nat_nonempty: "str_nat n \<noteq> []"
  by (subst str_nat.simps) simp

lemma str_nat_chars: "\<forall>c \<in> set (str_nat n). key_digit c \<and> c \<noteq> CHR ''-''"
proof (induction n rule: str_nat.induct)
  case (1 n)
  show ?case
  proof (cases "n < 10")
    case True
    then show ?thesis
      by (subst str_nat.simps) (simp add: digit_char_key_digit)
  next
    case False
    have "n mod 10 < 10" by simp
    then have "key_digit (digit_char (n mod 10)) \<and> digit_char (n mod 10) \<noteq> CHR ''-''"
      by (rule digit_char_key_digit)
    with 1 [OF False] False show ?thesis
      by (subst str_nat.simps) simp
  qed
qed

lemma str_nat_inj: "str_nat n = str_nat m \<Longrightarrow> n = m"
proof (induction n arbitrary: m rule: str_nat.induct)
  case (1 n)
  note eq = \<open>str_nat n = str_nat m\<close>
  show ?case
  proof (cases "n < 10")
    case n: True
    show ?thesis
    proof (cases "m < 10")
      case True
      with n eq have "digit_char n = digit_char m"
        by (simp add: str_nat.simps [of n] str_nat.simps [of m])
      with n True show ?thesis by (rule digit_char_inj)
    next
      case False
      with n eq have "[digit_char n] = str_nat (m div 10) @ [digit_char (m mod 10)]"
        by (simp add: str_nat.simps [of n] str_nat.simps [of m])
      then have "str_nat (m div 10) = []" by simp
      with str_nat_nonempty show ?thesis by blast
    qed
  next
    case n: False
    show ?thesis
    proof (cases "m < 10")
      case True
      with n eq have "str_nat (n div 10) @ [digit_char (n mod 10)] = [digit_char m]"
        by (simp add: str_nat.simps [of n] str_nat.simps [of m])
      then have "str_nat (n div 10) = []" by simp
      with str_nat_nonempty show ?thesis by blast
    next
      case False
      with n eq have "str_nat (n div 10) @ [digit_char (n mod 10)]
                      = str_nat (m div 10) @ [digit_char (m mod 10)]"
        by (simp add: str_nat.simps [of n] str_nat.simps [of m])
      then have hi: "str_nat (n div 10) = str_nat (m div 10)"
        and lo: "digit_char (n mod 10) = digit_char (m mod 10)" by simp_all
      from 1(1) [OF n hi] have d: "n div 10 = m div 10" .
      have "n mod 10 = m mod 10" by (rule digit_char_inj [OF _ _ lo]) simp_all
      with d show ?thesis by (metis div_mult_mod_eq)
    qed
  qed
qed

lemma str_int_chars: "\<forall>c \<in> set (str_int i). key_digit c"
proof (cases "i < 0")
  case True
  have "key_digit CHR ''-''" by (simp add: key_digit_def)
  with True str_nat_chars [of "nat (- i)"] show ?thesis by (simp add: str_int_def)
next
  case False
  with str_nat_chars [of "nat i"] show ?thesis by (simp add: str_int_def)
qed

lemma str_int_inj: "str_int i = str_int j \<Longrightarrow> i = j"
proof -
  assume eq: "str_int i = str_int j"
  have no_minus: "str_nat n \<noteq> CHR ''-'' # s" for n s
  proof
    assume "str_nat n = CHR ''-'' # s"
    then have "CHR ''-'' \<in> set (str_nat n)" by simp
    with str_nat_chars [of n] show False by blast
  qed
  show ?thesis
  proof (cases "i < 0")
    case i: True
    show ?thesis
    proof (cases "j < 0")
      case True
      with i eq have "str_nat (nat (- i)) = str_nat (nat (- j))" by (simp add: str_int_def)
      then have "nat (- i) = nat (- j)" by (rule str_nat_inj)
      with i True show ?thesis by simp
    next
      case False
      with i eq have "str_nat (nat j) = CHR ''-'' # str_nat (nat (- i))" by (simp add: str_int_def)
      with no_minus show ?thesis by blast
    qed
  next
    case i: False
    show ?thesis
    proof (cases "j < 0")
      case True
      with i eq have "str_nat (nat i) = CHR ''-'' # str_nat (nat (- j))" by (simp add: str_int_def)
      with no_minus show ?thesis by blast
    next
      case False
      with i eq have "str_nat (nat i) = str_nat (nat j)" by (simp add: str_int_def)
      then have "nat i = nat j" by (rule str_nat_inj)
      with i False show ?thesis by simp
    qed
  qed
qed

text \<open>A key that ends in a separator and a number splits in one way only.\<close>

lemma number_suffix:
  assumes "\<forall>c \<in> set d. key_digit c" and "\<not> key_digit h"
  shows "rev (takeWhile key_digit (rev (xs @ h # d))) = d"
proof -
  have "rev (xs @ h # d) = rev d @ h # rev xs" by simp
  moreover have "takeWhile key_digit (rev d @ h # rev xs)
                 = rev d @ takeWhile key_digit (h # rev xs)"
    by (rule takeWhile_append2) (use assms(1) in simp)
  moreover have "takeWhile key_digit (h # rev xs) = []"
    using assms(2) by simp
  ultimately show ?thesis by simp
qed

lemma separated_key_inj:
  assumes "\<not> key_digit h"
  shows "a @ sep @ h # str_int i = b @ sep @ h # str_int j \<longleftrightarrow> a = b \<and> i = j"
proof
  assume eq: "a @ sep @ h # str_int i = b @ sep @ h # str_int j"
  have "rev (takeWhile key_digit (rev ((a @ sep) @ h # str_int i))) = str_int i"
    by (rule number_suffix [OF str_int_chars assms])
  moreover have "rev (takeWhile key_digit (rev ((b @ sep) @ h # str_int j))) = str_int j"
    by (rule number_suffix [OF str_int_chars assms])
  ultimately have s: "str_int i = str_int j" using eq by simp
  then have ij: "i = j" by (rule str_int_inj)
  from eq s have "a = b" by simp
  with ij show "a = b \<and> i = j" by simp
next
  assume "a = b \<and> i = j"
  then show "a @ sep @ h # str_int i = b @ sep @ h # str_int j" by simp
qed

lemma batch_key_inj:
  "a @ ''_batch'' @ str_int i = b @ ''_batch'' @ str_int j \<longleftrightarrow> a = b \<and> i = j"
  using separated_key_inj [of "CHR ''h''" a "''_batc''" i b j]
  by (simp add: key_digit_def)

lemma cores_key_inj:
  "a @ ''_cores'' @ str_int i = b @ ''_cores'' @ str_int j \<longleftrightarrow> a = b \<and> i = j"
  using separated_key_inj [of "CHR ''s''" a "''_core''" i b j]
  by (simp add: key_digit_def)

lemma combo_key_eq:
  "combo_key m = model @ ''_batch'' @ str_int batch \<longleftrightarrow> model_of m = model \<and> batch_of m = batch"
  unfolding combo_key_def model_of_def batch_of_def by (rule batch_key_inj)

lemma config_key_eq:
  "config_key m = config_key m' \<longleftrightarrow> config_of m = config_of m'"
proof -
  have "config_key m = config_key m'
        \<longleftrightarrow> (model_of m @ ''_cores'' @ str_int (cores_of m)) @ ''_batch'' @ str_int (batch_of m)
          = (model_of m' @ ''_cores'' @ str_int (cores_of m')) @ ''_batch'' @ str_int (batch_of m')"
    by (simp add: config_key_def model_of_def cores_of_def batch_of_def)
  also have "\<dots> \<longleftrightarrow> model_of m @ ''_cores'' @ str_int (cores_of m)
                      = model_of m' @ ''_cores'' @ str_int (cores_of m')
                    \<and> batch_of m = batch_of m'"
    by (rule batch_key_inj)
  also have "\<dots> \<longleftrightarrow> config_of m = config_of m'"
    unfolding cores_key_inj config_of_def by auto
  finally show ?thesis .
qed

subsection \<open>The grouping loops\<close>

lemma set_first_occurrences: "set (first_occurrences xs) = set xs"
  by (induction xs) auto

lemma distinct_first_occurrences: "distinct (first_occurrences xs)"
  by (induction xs) (auto simp: set_first_occurrences)

lemma first_occurrences_snoc:
  "first_occurrences (xs @ [x])
   = (if x \<in> set xs then first_occurrences xs else first_occurrences xs @ [x])"
proof (induction xs)
  case Nil
  show ?case by simp
next
  case (Cons y ys)
  show ?case
  proof (cases "x = y")
    case True
    have "filter (\<lambda>z. z \<noteq> y) (first_occurrences (ys @ [y]))
          = filter (\<lambda>z. z \<noteq> y) (first_occurrences ys)"
      using Cons.IH True by (simp split: if_splits)
    with True show ?thesis by simp
  next
    case False
    then show ?thesis using Cons.IH by simp
  qed
qed

lemma first_occurrences_map_inj:
  "inj_on f (set xs) \<Longrightarrow> first_occurrences (map f xs) = map f (first_occurrences xs)"
proof (induction xs rule: rev_induct)
  case Nil
  show ?case by simp
next
  case (snoc x xs)
  from snoc.prems have inj: "inj_on f (set xs)" by (simp add: inj_on_def)
  from snoc.prems have mem: "f x \<in> f ` set xs \<longleftrightarrow> x \<in> set xs"
    by (auto simp: inj_on_def)
  show ?case
    using snoc.IH [OF inj] mem by (simp add: first_occurrences_snoc)
qed

lemma map_of_keyed:
  "map_of (map (\<lambda>k. (k, F k)) ks) k = (if k \<in> set ks then Some (F k) else None)"
  by (induction ks) auto

lemma dict_update_keyed:
  assumes "distinct ks"
  shows "dict_update k d h (map (\<lambda>k'. (k', F k')) ks)
         = (if k \<in> set ks
            then map (\<lambda>k'. (k', if k' = k then h (F k') else F k')) ks
            else map (\<lambda>k'. (k', F k')) ks @ [(k, h d)])"
  using assms
proof (induction ks)
  case Nil
  show ?case by simp
next
  case (Cons a ks)
  show ?case
  proof (cases "k = a")
    case True
    with Cons.prems have "k \<notin> set ks" by simp
    then have "map (\<lambda>k'. (k', if k' = k then h (F k') else F k')) ks = map (\<lambda>k'. (k', F k')) ks"
      by (intro map_cong) auto
    with True show ?thesis by simp
  next
    case False
    with Cons show ?thesis by simp
  qed
qed

text \<open>The grouping loop, in closed form: one entry per key in the order of the keys'
  first occurrences, holding the fold of the loop over the elements that have the key.\<close>

lemma group_fold:
  "foldl (\<lambda>g m. dict_update (kf m) d (h m) g) [] ms
   = map (\<lambda>k. (k, foldl (\<lambda>v m. h m v) d (filter (\<lambda>m. kf m = k) ms)))
       (first_occurrences (map kf ms))"
proof (induction ms rule: rev_induct)
  case Nil
  show ?case by simp
next
  case (snoc m ms)
  define ks where "ks = first_occurrences (map kf ms)"
  define F where "F = (\<lambda>k. foldl (\<lambda>v m. h m v) d (filter (\<lambda>m. kf m = k) ms))"
  define F' where "F' = (\<lambda>k. foldl (\<lambda>v m. h m v) d (filter (\<lambda>m. kf m = k) (ms @ [m])))"
  have IH: "foldl (\<lambda>g m. dict_update (kf m) d (h m) g) [] ms = map (\<lambda>k. (k, F k)) ks"
    unfolding ks_def F_def by (rule snoc.IH)
  have dks: "distinct ks" unfolding ks_def by (rule distinct_first_occurrences)
  have sks: "set ks = kf ` set ms" unfolding ks_def by (simp add: set_first_occurrences)
  have F'_eq: "F' k = (if kf m = k then h m (F k) else F k)" for k
    unfolding F'_def F_def by simp
  have step: "foldl (\<lambda>g m. dict_update (kf m) d (h m) g) [] (ms @ [m])
              = dict_update (kf m) d (h m) (map (\<lambda>k. (k, F k)) ks)"
    by (simp add: IH)
  show ?case
  proof (cases "kf m \<in> set ks")
    case True
    then have ks': "first_occurrences (map kf (ms @ [m])) = ks"
      unfolding ks_def by (simp add: first_occurrences_snoc set_first_occurrences)
    have "dict_update (kf m) d (h m) (map (\<lambda>k. (k, F k)) ks)
          = map (\<lambda>k'. (k', if k' = kf m then h m (F k') else F k')) ks"
      using True by (simp add: dict_update_keyed [OF dks])
    also have "\<dots> = map (\<lambda>k. (k, F' k)) ks"
      by (intro map_cong) (auto simp: F'_eq)
    finally show ?thesis unfolding step ks' F'_def by simp
  next
    case False
    then have ks': "first_occurrences (map kf (ms @ [m])) = ks @ [kf m]"
      unfolding ks_def by (simp add: first_occurrences_snoc set_first_occurrences)
    from False have none: "filter (\<lambda>x. kf x = kf m) ms = []"
      unfolding sks filter_empty_conv by (metis imageI)
    have new: "F' (kf m) = h m d" unfolding F'_def by (simp add: none)
    have old: "map (\<lambda>k. (k, F k)) ks = map (\<lambda>k. (k, F' k)) ks"
      using False by (intro map_cong) (auto simp: F'_eq)
    have "dict_update (kf m) d (h m) (map (\<lambda>k. (k, F k)) ks)
          = map (\<lambda>k. (k, F k)) ks @ [(kf m, h m d)]"
      using False by (simp add: dict_update_keyed [OF dks])
    also have "\<dots> = map (\<lambda>k. (k, F' k)) (ks @ [kf m])"
      by (simp add: old new)
    finally show ?thesis unfolding step ks' F'_def by simp
  qed
qed

lemma foldl_snoc_list: "foldl (\<lambda>v m. v @ [m]) acc xs = acc @ xs"
  by (induction xs arbitrary: acc) simp_all

lemma group_append:
  "foldl (\<lambda>g m. dict_update (kf m) [] (\<lambda>l. l @ [m]) g) [] ms
   = map (\<lambda>k. (k, filter (\<lambda>m. kf m = k) ms)) (first_occurrences (map kf ms))"
  using group_fold [of kf "[]" "\<lambda>m l. l @ [m]" ms]
  by (simp add: foldl_snoc_list)

lemma length_first_occurrences: "length (first_occurrences xs) = card (set xs)"
  using distinct_card [OF distinct_first_occurrences, of xs]
  by (simp add: set_first_occurrences)


text \<open>The groups of the scaling analysis, in terms of the input.\<close>

lemma scaling_analysis_eq:
  "scaling_analysis ms
   = map (\<lambda>k. (k, map (\<lambda>c. (c, filter (\<lambda>m. cores_of m = c) (filter (\<lambda>m. combo_key m = k) ms)))
                    (first_occurrences (map cores_of (filter (\<lambda>m. combo_key m = k) ms)))))
       (first_occurrences (map combo_key ms))"
proof -
  have inner: "foldl (\<lambda>v m. dict_update (cores_of m) [] (\<lambda>l. l @ [m]) v) [] g
               = map (\<lambda>c. (c, filter (\<lambda>m. cores_of m = c) g)) (first_occurrences (map cores_of g))"
    for g
    by (rule group_append)
  have "scaling_analysis ms
        = foldl (\<lambda>groups m. dict_update (combo_key m) []
                   (dict_update (cores_of m) [] (\<lambda>l. l @ [m])) groups) [] ms"
    by (simp add: scaling_analysis_def cores_of_def)
  also have "\<dots> = map (\<lambda>k. (k, foldl (\<lambda>v m. dict_update (cores_of m) [] (\<lambda>l. l @ [m]) v) []
                                   (filter (\<lambda>m. combo_key m = k) ms)))
                     (first_occurrences (map combo_key ms))"
    by (rule group_fold)
  finally show ?thesis unfolding inner .
qed

lemma scaling_analysis_group:
  "map_of (scaling_analysis ms) (model @ ''_batch'' @ str_int batch)
   = (if filter (\<lambda>m. model_of m = model \<and> batch_of m = batch) ms = [] then None
      else Some (map (\<lambda>c. (c, sub_group ms model batch c))
                   (first_occurrences
                      (map cores_of (filter (\<lambda>m. model_of m = model \<and> batch_of m = batch) ms)))))"
proof -
  define key where "key = model @ ''_batch'' @ str_int batch"
  define G where "G = filter (\<lambda>m. model_of m = model \<and> batch_of m = batch) ms"
  have G: "filter (\<lambda>m. combo_key m = key) ms = G"
    unfolding key_def G_def combo_key_eq ..
  have sub: "filter (\<lambda>m. cores_of m = c) G = sub_group ms model batch c" for c
    unfolding G_def sub_group_def by (simp add: conj_assoc)
  have mem: "key \<in> set (first_occurrences (map combo_key ms)) \<longleftrightarrow> G \<noteq> []"
  proof
    assume "key \<in> set (first_occurrences (map combo_key ms))"
    then obtain m where "m \<in> set ms" "combo_key m = key"
      by (auto simp: set_first_occurrences)
    then have "m \<in> set (filter (\<lambda>m. combo_key m = key) ms)" by simp
    then show "G \<noteq> []" unfolding G by auto
  next
    assume "G \<noteq> []"
    then obtain m where "m \<in> set (filter (\<lambda>m. combo_key m = key) ms)"
      unfolding G [symmetric] by (cases "filter (\<lambda>m. combo_key m = key) ms") auto
    then show "key \<in> set (first_occurrences (map combo_key ms))"
      by (auto simp: set_first_occurrences)
  qed
  have "map_of (scaling_analysis ms) key
        = (if key \<in> set (first_occurrences (map combo_key ms))
           then Some (map (\<lambda>c. (c, filter (\<lambda>m. cores_of m = c) (filter (\<lambda>m. combo_key m = key) ms)))
                        (first_occurrences (map cores_of (filter (\<lambda>m. combo_key m = key) ms))))
           else None)"
    unfolding scaling_analysis_eq by (rule map_of_keyed)
  then show ?thesis
    unfolding mem G sub unfolding key_def G_def by simp
qed

lemma sub_group_keyed:
  "map_of (map (\<lambda>c. (c, sub_group ms model batch c))
             (first_occurrences
                (map cores_of (filter (\<lambda>m. model_of m = model \<and> batch_of m = batch) ms)))) c
   = (if sub_group ms model batch c = [] then None else Some (sub_group ms model batch c))"
proof -
  have "c \<in> set (first_occurrences
                (map cores_of (filter (\<lambda>m. model_of m = model \<and> batch_of m = batch) ms)))
        \<longleftrightarrow> sub_group ms model batch c \<noteq> []"
    unfolding set_first_occurrences sub_group_def filter_empty_conv by auto
  then show ?thesis unfolding map_of_keyed by simp
qed

lemma sub_group_keyed_length:
  "length (map (\<lambda>c. (c, sub_group ms model batch c))
             (first_occurrences
                (map cores_of (filter (\<lambda>m. model_of m = model \<and> batch_of m = batch) ms))))
   = card (core_counts ms model batch)"
  by (simp add: length_first_occurrences core_counts_def)

lemma sub_group_keyed_distinct:
  "distinct (map fst (map (\<lambda>c. (c, sub_group ms model batch c))
             (first_occurrences
                (map cores_of (filter (\<lambda>m. model_of m = model \<and> batch_of m = batch) ms)))))"
  by (simp add: comp_def distinct_first_occurrences)

lemma scaling_entry_of_group:
  "map_of (analyze_scaling_performance ms) (model @ ''_batch'' @ str_int batch)
   = (if filter (\<lambda>m. model_of m = model \<and> batch_of m = batch) ms = [] then None
      else group_entry
             (map (\<lambda>c. (c, sub_group ms model batch c))
                (first_occurrences
                   (map cores_of (filter (\<lambda>m. model_of m = model \<and> batch_of m = batch) ms)))))"
proof -
  have d: "distinct (map fst (scaling_analysis ms))"
    using scaling_analysis_invariant by blast
  show ?thesis
    unfolding analyze_scaling_performance_def foldl_scaling_step_map_of [OF d]
      scaling_analysis_group
    by (simp split: option.splits)
qed



lemma scaling_entry_none:
  assumes "sub_group ms model batch 1 = [] \<or> card (core_counts ms model batch) < 2"
  shows "map_of (analyze_scaling_performance ms) (model @ ''_batch'' @ str_int batch) = None"
proof -
  have "map_of (map (\<lambda>c. (c, sub_group ms model batch c))
             (first_occurrences
                (map cores_of (filter (\<lambda>m. model_of m = model \<and> batch_of m = batch) ms)))) 1 = None
        \<or> length (map (\<lambda>c. (c, sub_group ms model batch c))
             (first_occurrences
                (map cores_of (filter (\<lambda>m. model_of m = model \<and> batch_of m = batch) ms)))) < 2"
    unfolding sub_group_keyed sub_group_keyed_length using assms by auto
  from group_entry_none [OF sub_group_keyed_distinct this]
  show ?thesis unfolding scaling_entry_of_group by simp
qed

lemma scaling_entry_keys:
  assumes "key \<in> fst ` set (analyze_scaling_performance ms)"
  shows "\<exists>m \<in> set ms. key = model_of m @ ''_batch'' @ str_int (batch_of m)
           \<and> sub_group ms (model_of m) (batch_of m) 1 \<noteq> []
           \<and> 2 \<le> card (core_counts ms (model_of m) (batch_of m))"
proof -
  have d: "distinct (map fst (scaling_analysis ms))"
    using scaling_analysis_invariant by blast
  from assms have some: "map_of (analyze_scaling_performance ms) key \<noteq> None"
    by (simp add: map_of_eq_None_iff)
  then have "map_of (scaling_analysis ms) key \<noteq> None"
    unfolding analyze_scaling_performance_def foldl_scaling_step_map_of [OF d]
    by (auto split: option.splits)
  then have "key \<in> fst ` set (scaling_analysis ms)"
    by (simp add: map_of_eq_None_iff)
  then have "key \<in> combo_key ` set ms"
    unfolding scaling_analysis_eq by (auto simp: set_first_occurrences)
  then obtain m where m: "m \<in> set ms" and key: "key = model_of m @ ''_batch'' @ str_int (batch_of m)"
    by (auto simp: combo_key_def model_of_def batch_of_def)
  have "\<not> (sub_group ms (model_of m) (batch_of m) 1 = []
            \<or> card (core_counts ms (model_of m) (batch_of m)) < 2)"
    using scaling_entry_none [of ms "model_of m" "batch_of m"] some unfolding key by blast
  with m key show ?thesis by auto
qed



lemma sample_scaling_groups:
  "sub_group [sample_measurement ''resnet18'' 2 1 10 200 10 20,
              sample_measurement ''yolo'' 1 1 10 100 10 10,
              sample_measurement ''yolo'' 4 1 10 350 10 35] ''resnet18'' 1 1 = []"
  "sub_group [sample_measurement ''resnet18'' 2 1 10 200 10 20,
              sample_measurement ''yolo'' 1 1 10 100 10 10,
              sample_measurement ''yolo'' 4 1 10 350 10 35] ''yolo'' 1 1
   = [sample_measurement ''yolo'' 1 1 10 100 10 10]"
  "sub_group [sample_measurement ''resnet18'' 2 1 10 200 10 20,
              sample_measurement ''yolo'' 1 1 10 100 10 10,
              sample_measurement ''yolo'' 4 1 10 350 10 35] ''yolo'' 1 4
   = [sample_measurement ''yolo'' 4 1 10 350 10 35]"
  by (simp_all add: sub_group_def model_of_def batch_of_def cores_of_def dict_get_def
        sample_measurement_def)

lemma sample_scaling_keys:
  "map fst (analyze_scaling_performance
     [sample_measurement ''resnet18'' 2 1 10 200 10 20,
      sample_measurement ''yolo'' 1 1 10 100 10 10,
      sample_measurement ''yolo'' 4 1 10 350 10 35]) = [''yolo_batch1'']"
  by (simp add: analyze_scaling_performance_def scaling_analysis_def combo_key_def dict_get_def
        sample_measurement_def str_int_def str_nat.simps digit_char_def scaling_step_def
        core_performance_of_def dict_set_def Let_def)

subsection \<open>Scaling analyzer: the scaling metrics\<close>



subsection \<open>Scaling analyzer: groups without a baseline\<close>

text \<open>
  Claim C5, as stated: a group without 1-core sub-group, or with fewer than two core
  counts, produces no scaling entry. \<^verbatim>\<open>_analyze_multicore_scaling\<close> on a data frame
  whose only row is a 2-core row has no 1-core baseline and still stores the entry
  \<^verbatim>\<open>2_cores\<close>, with scaling factor 0.
\<close>

theorem C5_counterexample:
  "core_rows (resnet18_batch1 [sample_scaling_row 2 200]) 1 = []
   \<and> scaling_details (analyze_multicore_scaling [sample_scaling_row 2 200])
       = [(''2_cores'', \<lparr>se_throughput_fps = 200, se_scaling_factor = 0, se_efficiency = 0,
                        se_sample_count = 1\<rparr>)]"
proof -
  have 1: "core_rows (resnet18_batch1 [sample_scaling_row 2 200]) 1 = []"
    and 2: "core_rows (resnet18_batch1 [sample_scaling_row 2 200]) 2 = [sample_scaling_row 2 200]"
    and 4: "core_rows (resnet18_batch1 [sample_scaling_row 2 200]) 4 = []"
    by (simp_all add: core_rows_def resnet18_batch1_def sample_scaling_row_def)
  have "scaling_details (analyze_multicore_scaling [sample_scaling_row 2 200])
       = [(''2_cores'', \<lparr>se_throughput_fps = 200, se_scaling_factor = 0, se_efficiency = 0,
                        se_sample_count = 1\<rparr>)]"
    unfolding multicore_no_baseline [OF 1] 2 4
    by (simp add: entry_for_def np_mean_def sample_scaling_row_def)
  with 1 show ?thesis by simp
qed

text \<open>
  Claim C5, amended. In \<^verbatim>\<open>analyze_scaling_performance\<close> a model and batch size of which
  the input holds no 1-core measurement, or which occur in the input with fewer than two
  distinct core counts, have no entry in the result; and every key of the result is the
  key of the model and batch size of some measurement of the input, of which the input
  holds 1-core measurements and at least two distinct core counts. The function is
  total, so nothing is raised. \<^verbatim>\<open>_analyze_multicore_scaling\<close> skips nothing: without
  1-core rows, each of the core counts 2 and 4 that has rows gets an entry with scaling
  factor 0 and efficiency 0, and with 1-core rows only, the result holds the entry
  \<^verbatim>\<open>1_cores\<close> alone.
\<close>

theorem C5_groups_without_baseline:
  assumes "sub_group ms model batch 1 = [] \<or> card (core_counts ms model batch) < 2"
  shows "map_of (analyze_scaling_performance ms) (model @ ''_batch'' @ str_int batch) = None
     \<and> (\<forall>key \<in> fst ` set (analyze_scaling_performance ms).
          \<exists>m \<in> set ms. key = model_of m @ ''_batch'' @ str_int (batch_of m)
             \<and> sub_group ms (model_of m) (batch_of m) 1 \<noteq> []
             \<and> 2 \<le> card (core_counts ms (model_of m) (batch_of m)))
     \<and> (core_rows (resnet18_batch1 rows) 1 = []
         \<and> (n = 2 \<or> n = 4)
         \<and> core_rows (resnet18_batch1 rows) n \<noteq> []
         \<longrightarrow> (\<exists>e. map_of (scaling_details (analyze_multicore_scaling rows)) (str_int n @ ''_cores'')
                    = Some e
               \<and> se_scaling_factor e = 0 \<and> se_efficiency e = 0))
     \<and> (core_rows (resnet18_batch1 single) 1 \<noteq> []
         \<and> core_rows (resnet18_batch1 single) 2 = []
         \<and> core_rows (resnet18_batch1 single) 4 = []
         \<longrightarrow> scaling_details (analyze_multicore_scaling single)
               = [(''1_cores'', entry_for (core_rows (resnet18_batch1 single) 1) 1 1)])"
proof -
  have 1: "map_of (analyze_scaling_performance ms) (model @ ''_batch'' @ str_int batch) = None"
    by (rule scaling_entry_none [OF assms])
  have k: "\<forall>key \<in> fst ` set (analyze_scaling_performance ms).
          \<exists>m \<in> set ms. key = model_of m @ ''_batch'' @ str_int (batch_of m)
             \<and> sub_group ms (model_of m) (batch_of m) 1 \<noteq> []
             \<and> 2 \<le> card (core_counts ms (model_of m) (batch_of m))"
    using scaling_entry_keys [of _ ms] by blast
  have 2: "\<exists>e. map_of (scaling_details (analyze_multicore_scaling rows)) (str_int n @ ''_cores'') = Some e
          \<and> se_scaling_factor e = 0 \<and> se_efficiency e = 0"
    if a: "core_rows (resnet18_batch1 rows) 1 = []"
      and b: "n = 2 \<or> n = 4"
      and c: "core_rows (resnet18_batch1 rows) n \<noteq> []"
    unfolding multicore_no_baseline [OF a]
    using b c by (auto simp: core_keys entry_for_def)
  have 3: "scaling_details (analyze_multicore_scaling single)
         = [(''1_cores'', entry_for (core_rows (resnet18_batch1 single) 1) 1 1)]"
    if a: "core_rows (resnet18_batch1 single) 1 \<noteq> []"
      and b: "core_rows (resnet18_batch1 single) 2 = []"
      and c: "core_rows (resnet18_batch1 single) 4 = []"
    unfolding multicore_baseline [OF a] using b c by simp
  from 1 k 2 3 show ?thesis by blast
qed

text \<open>
  An input with one 2-core measurement of one model and a 1-core and a 4-core
  measurement of another: the result has an entry for the second model only.
\<close>

theorem C5_witness:
  "map_of (analyze_scaling_performance
      [sample_measurement ''resnet18'' 2 1 10 200 10 20,
       sample_measurement ''yolo'' 1 1 10 100 10 10,
       sample_measurement ''yolo'' 4 1 10 350 10 35]) ''resnet18_batch1'' = None
   \<and> map fst (analyze_scaling_performance
      [sample_measurement ''resnet18'' 2 1 10 200 10 20,
       sample_measurement ''yolo'' 1 1 10 100 10 10,
       sample_measurement ''yolo'' 4 1 10 350 10 35]) = [''yolo_batch1'']
   \<and> (\<exists>m \<in> set [sample_measurement ''resnet18'' 2 1 10 200 10 20,
                  sample_measurement ''yolo'' 1 1 10 100 10 10,
                  sample_measurement ''yolo'' 4 1 10 350 10 35].
         ''yolo_batch1'' = model_of m @ ''_batch'' @ str_int (batch_of m)
         \<and> sub_group [sample_measurement ''resnet18'' 2 1 10 200 10 20,
                       sample_measurement ''yolo'' 1 1 10 100 10 10,
                       sample_measurement ''yolo'' 4 1 10 350 10 35] (model_of m) (batch_of m) 1 \<noteq> [])
   \<and> (\<exists>e. map_of (scaling_details (analyze_multicore_scaling [sample_scaling_row 2 200]))
             ''2_cores'' = Some e
          \<and> se_scaling_factor e = 0 \<and> se_efficiency e = 0)
   \<and> map fst (scaling_details (analyze_multicore_scaling [sample_scaling_row 1 100]))
       = [''1_cores'']"
proof -
  let ?ms = "[sample_measurement ''resnet18'' 2 1 10 200 10 20,
              sample_measurement ''yolo'' 1 1 10 100 10 10,
              sample_measurement ''yolo'' 4 1 10 350 10 35]"
  have rows: "core_rows (resnet18_batch1 [sample_scaling_row 2 200]) 1 = []"
       "core_rows (resnet18_batch1 [sample_scaling_row 2 200]) 2 = [sample_scaling_row 2 200]"
       "core_rows (resnet18_batch1 [sample_scaling_row 1 100]) 1 = [sample_scaling_row 1 100]"
       "core_rows (resnet18_batch1 [sample_scaling_row 1 100]) 2 = []"
       "core_rows (resnet18_batch1 [sample_scaling_row 1 100]) 4 = []"
    by (simp_all add: core_rows_def resnet18_batch1_def sample_scaling_row_def)
  have hyp: "sub_group ?ms ''resnet18'' 1 1 = [] \<or> card (core_counts ?ms ''resnet18'' 1) < 2"
    by (simp add: sample_scaling_groups)
  have key: "''yolo_batch1'' \<in> fst ` set (analyze_scaling_performance ?ms)"
    using sample_scaling_keys by (metis list.set_intros(1) set_map)
  note inst = C5_groups_without_baseline [of ?ms "''resnet18''" 1
        "[sample_scaling_row 2 200]" 2 "[sample_scaling_row 1 100]", OF hyp]
  from inst have a: "map_of (analyze_scaling_performance ?ms) ''resnet18_batch1'' = None"
    by (simp add: core_keys)
  from inst key have b: "\<exists>m \<in> set ?ms.
         ''yolo_batch1'' = model_of m @ ''_batch'' @ str_int (batch_of m)
         \<and> sub_group ?ms (model_of m) (batch_of m) 1 \<noteq> []"
    by blast
  from inst have c: "\<exists>e. map_of (scaling_details (analyze_multicore_scaling [sample_scaling_row 2 200]))
             ''2_cores'' = Some e
          \<and> se_scaling_factor e = 0 \<and> se_efficiency e = 0"
    unfolding rows by (simp add: core_keys)
  from inst have d: "map fst (scaling_details (analyze_multicore_scaling [sample_scaling_row 1 100]))
       = [''1_cores'']"
    unfolding rows by simp
  from a sample_scaling_keys b c d show ?thesis by blast
qed

subsection \<open>Peak finder: helper lemmas\<close>

lemma find_append_cases:
  "find P (xs @ ys) = (case find P xs of None \<Rightarrow> find P ys | Some x \<Rightarrow> Some x)"
  by (induction xs) auto

lemma find_max_some:
  assumes "g \<noteq> []"
  shows "\<exists>w. find (\<lambda>x. f x = Max (set (map f g))) g = Some w \<and> w \<in> set g
             \<and> f w = Max (set (map f g))"
proof -
  have "Max (set (map f g)) \<in> set (map f g)"
    using assms by (intro Max_in) auto
  then obtain x where "x \<in> set g" "f x = Max (set (map f g))" by auto
  then have "find (\<lambda>x. f x = Max (set (map f g))) g \<noteq> None"
    by (auto simp: find_None_iff)
  then obtain w where w: "find (\<lambda>x. f x = Max (set (map f g))) g = Some w" by auto
  then have "w \<in> set g \<and> f w = Max (set (map f g))"
    by (auto simp: find_Some_iff)
  with w show ?thesis by blast
qed

lemma best_step_max:
  assumes "g \<noteq> []"
  shows "best_step f (b, c, m) (k, g)
         = (if Max (set (map f g)) > b
            then (Max (set (map f g)), Some k, find (\<lambda>x. f x = Max (set (map f g))) g)
            else (b, c, m))"
  using find_max_some [OF assms, of f]
  by (auto simp: best_step_def first_with_def)

text \<open>The scan over the groups finds the first measurement, in iteration order, that
  attains the maximum, provided some value exceeds the initial bound.\<close>

lemma best_step_snoc:
  fixes f :: "measurement \<Rightarrow> real"
  assumes g: "g \<noteq> []"
      and kfg: "\<forall>x \<in> set g. kf x = k"
      and R: "R = (if \<exists>x \<in> set xs. b0 < f x
                   then (Max (f ` set xs),
                         map_option kf (find (\<lambda>x. f x = Max (f ` set xs)) xs),
                         find (\<lambda>x. f x = Max (f ` set xs)) xs)
                   else (b0, None, None))"
  shows "best_step f R (k, g)
         = (if \<exists>x \<in> set (xs @ g). b0 < f x
            then (Max (f ` set (xs @ g)),
                  map_option kf (find (\<lambda>x. f x = Max (f ` set (xs @ g))) (xs @ g)),
                  find (\<lambda>x. f x = Max (f ` set (xs @ g))) (xs @ g))
            else (b0, None, None))"
proof -
  define mx where "mx = Max (set (map f g))"
  define M where "M = Max (f ` set xs)"
  obtain w where w: "find (\<lambda>x. f x = mx) g = Some w" "w \<in> set g" "f w = mx"
    unfolding mx_def using find_max_some [OF g, of f] by blast
  have mx_ge: "\<forall>x \<in> set g. f x \<le> mx" unfolding mx_def by simp
  have M_ge: "\<forall>x \<in> set xs. f x \<le> M" unfolding M_def by simp
  have fin: "finite (f ` set (xs @ g))" by simp
  have step: "best_step f (b, c, m) (k, g)
              = (if mx > b then (mx, Some k, find (\<lambda>x. f x = mx) g) else (b, c, m))" for b c m
    unfolding mx_def by (rule best_step_max [OF g])
  have in_app: "y \<in> f ` set (xs @ g) \<longleftrightarrow> (\<exists>x \<in> set xs. y = f x) \<or> (\<exists>x \<in> set g. y = f x)" for y
    by auto
  show ?thesis
  proof (cases "\<exists>x \<in> set xs. b0 < f x")
    case True
    then obtain x0 where x0: "x0 \<in> set xs" "b0 < f x0" by blast
    have ne_img: "f ` set xs \<noteq> {}" using x0(1) by auto
    have "M \<in> f ` set xs" unfolding M_def using ne_img by (intro Max_in) simp_all
    then obtain xm where xm: "xm \<in> set xs" "f xm = M" by auto
    have R': "R = (M, map_option kf (find (\<lambda>x. f x = M) xs), find (\<lambda>x. f x = M) xs)"
      unfolding M_def using R True by simp
    have ex: "\<exists>x \<in> set (xs @ g). b0 < f x" using x0 by auto
    show ?thesis
    proof (cases "M < mx")
      case gt: True
      have newmax: "Max (f ` set (xs @ g)) = mx"
      proof (rule Max_eqI [OF fin])
        show "mx \<in> f ` set (xs @ g)" unfolding in_app using w by blast
        fix y assume "y \<in> f ` set (xs @ g)"
        then consider x where "x \<in> set xs" "y = f x" | x where "x \<in> set g" "y = f x"
          unfolding in_app by blast
        then show "y \<le> mx"
        proof cases
          case 1
          then have "y \<le> M" using M_ge by blast
          with gt show ?thesis by simp
        next
          case 2
          then show ?thesis using mx_ge by blast
        qed
      qed
      have none: "find (\<lambda>x. f x = mx) xs = None"
      proof -
        have "\<not> (\<exists>x. x \<in> set xs \<and> f x = mx)"
        proof
          assume "\<exists>x. x \<in> set xs \<and> f x = mx"
          then obtain x where "x \<in> set xs" "f x = mx" by blast
          then have "mx \<le> M" using M_ge by blast
          with gt show False by simp
        qed
        then show ?thesis by (simp add: find_None_iff)
      qed
      have "best_step f R (k, g) = (mx, Some k, find (\<lambda>x. f x = mx) g)"
        unfolding R' step using gt by simp
      also have "\<dots> = (mx, map_option kf (find (\<lambda>x. f x = mx) (xs @ g)),
                        find (\<lambda>x. f x = mx) (xs @ g))"
        using w kfg by (simp add: find_append_cases none)
      finally show ?thesis unfolding newmax using ex by simp
    next
      case le: False
      have samemax: "Max (f ` set (xs @ g)) = M"
      proof (rule Max_eqI [OF fin])
        show "M \<in> f ` set (xs @ g)" unfolding in_app using xm by blast
        fix y assume "y \<in> f ` set (xs @ g)"
        then consider x where "x \<in> set xs" "y = f x" | x where "x \<in> set g" "y = f x"
          unfolding in_app by blast
        then show "y \<le> M"
        proof cases
          case 1
          then show ?thesis using M_ge by blast
        next
          case 2
          then have "y \<le> mx" using mx_ge by blast
          with le show ?thesis by simp
        qed
      qed
      have "find (\<lambda>x. f x = M) xs \<noteq> None"
        using xm by (auto simp: find_None_iff)
      then obtain v where v: "find (\<lambda>x. f x = M) xs = Some v" by auto
      have "best_step f R (k, g)
            = (M, map_option kf (find (\<lambda>x. f x = M) xs), find (\<lambda>x. f x = M) xs)"
        unfolding R' step using le by simp
      also have "\<dots> = (M, map_option kf (find (\<lambda>x. f x = M) (xs @ g)),
                        find (\<lambda>x. f x = M) (xs @ g))"
        by (simp add: find_append_cases v)
      finally show ?thesis unfolding samemax using ex by simp
    qed
  next
    case False
    then have low: "\<forall>x \<in> set xs. f x \<le> b0" by (meson not_le)
    have R': "R = (b0, None, None)" using R False by simp
    show ?thesis
    proof (cases "b0 < mx")
      case gt: True
      have ex: "\<exists>x \<in> set (xs @ g). b0 < f x" using gt w by auto
      have newmax: "Max (f ` set (xs @ g)) = mx"
      proof (rule Max_eqI [OF fin])
        show "mx \<in> f ` set (xs @ g)" unfolding in_app using w by blast
        fix y assume "y \<in> f ` set (xs @ g)"
        then consider x where "x \<in> set xs" "y = f x" | x where "x \<in> set g" "y = f x"
          unfolding in_app by blast
        then show "y \<le> mx"
        proof cases
          case 1
          then have "y \<le> b0" using low by blast
          with gt show ?thesis by simp
        next
          case 2
          then show ?thesis using mx_ge by blast
        qed
      qed
      have none: "find (\<lambda>x. f x = mx) xs = None"
      proof -
        have "\<not> (\<exists>x. x \<in> set xs \<and> f x = mx)"
        proof
          assume "\<exists>x. x \<in> set xs \<and> f x = mx"
          then obtain x where "x \<in> set xs" "f x = mx" by blast
          then have "mx \<le> b0" using low by blast
          with gt show False by simp
        qed
        then show ?thesis by (simp add: find_None_iff)
      qed
      have "best_step f R (k, g) = (mx, Some k, find (\<lambda>x. f x = mx) g)"
        unfolding R' step using gt by simp
      also have "\<dots> = (mx, map_option kf (find (\<lambda>x. f x = mx) (xs @ g)),
                        find (\<lambda>x. f x = mx) (xs @ g))"
        using w kfg by (simp add: find_append_cases none)
      finally show ?thesis unfolding newmax using ex by simp
    next
      case le: False
      have nex: "\<not> (\<exists>x \<in> set (xs @ g). b0 < f x)"
      proof
        assume "\<exists>x \<in> set (xs @ g). b0 < f x"
        then obtain x where x: "x \<in> set xs \<or> x \<in> set g" "b0 < f x" by auto
        from x(1) have "f x \<le> b0"
        proof
          assume "x \<in> set xs" then show ?thesis using low by blast
        next
          assume "x \<in> set g"
          then have "f x \<le> mx" using mx_ge by blast
          with le show ?thesis by simp
        qed
        with x(2) show False by simp
      qed
      have "best_step f R (k, g) = (b0, None, None)"
        unfolding R' step using le by simp
      then show ?thesis using nex by simp
    qed
  qed
qed

lemma foldl_best_step:
  fixes f :: "measurement \<Rightarrow> real"
  assumes ne: "\<forall>kg \<in> set gs. snd kg \<noteq> []"
      and keys: "\<forall>kg \<in> set gs. \<forall>x \<in> set (snd kg). kf x = fst kg"
  shows "foldl (best_step f) (b0, None, None) gs
         = (if \<exists>x \<in> set (concat (map snd gs)). b0 < f x
            then (Max (f ` set (concat (map snd gs))),
                  map_option kf (find (\<lambda>x. f x = Max (f ` set (concat (map snd gs))))
                                   (concat (map snd gs))),
                  find (\<lambda>x. f x = Max (f ` set (concat (map snd gs)))) (concat (map snd gs)))
            else (b0, None, None))"
  using assms
proof (induction gs rule: rev_induct)
  case Nil
  then show ?case by simp
next
  case (snoc kg gs)
  obtain k g where kg: "kg = (k, g)" by (cases kg)
  define xs where "xs = concat (map snd gs)"
  from snoc.prems kg have g: "g \<noteq> []" by simp
  from snoc.prems kg have kfg: "\<forall>x \<in> set g. kf x = k" by simp
  have IH: "foldl (best_step f) (b0, None, None) gs
         = (if \<exists>x \<in> set xs. b0 < f x
            then (Max (f ` set xs),
                  map_option kf (find (\<lambda>x. f x = Max (f ` set xs)) xs),
                  find (\<lambda>x. f x = Max (f ` set xs)) xs)
            else (b0, None, None))"
    unfolding xs_def using snoc.IH snoc.prems by simp
  have all_eq: "concat (map snd (gs @ [kg])) = xs @ g" by (simp add: kg xs_def)
  have "foldl (best_step f) (b0, None, None) (gs @ [kg])
        = best_step f (foldl (best_step f) (b0, None, None) gs) (k, g)"
    by (simp add: kg)
  also note best_step_snoc [OF g kfg IH]
  finally show ?case unfolding all_eq .
qed

lemma dict_update_append_members:
  "set (concat (map snd (dict_update k [] (\<lambda>l. l @ [m]) al)))
   = insert m (set (concat (map snd al)))"
proof (induction al)
  case Nil
  show ?case by simp
next
  case (Cons p al)
  obtain k' v where p: "p = (k', v)" by (cases p)
  show ?case
  proof (cases "k = k'")
    case True
    then show ?thesis unfolding p by simp
  next
    case False
    have "set (concat (map snd (dict_update k [] (\<lambda>l. l @ [m]) (p # al))))
          = set v \<union> set (concat (map snd (dict_update k [] (\<lambda>l. l @ [m]) al)))"
      unfolding p using False by simp
    also have "\<dots> = set v \<union> insert m (set (concat (map snd al)))"
      unfolding Cons.IH ..
    also have "\<dots> = insert m (set (concat (map snd (p # al))))"
      unfolding p by simp
    finally show ?thesis .
  qed
qed

lemma dict_update_append_length:
  "length (concat (map snd (dict_update k [] (\<lambda>l. l @ [m]) al)))
   = Suc (length (concat (map snd al)))"
  by (induction al) auto

lemma dict_update_append_keys:
  assumes "\<forall>kg \<in> set al. \<forall>x \<in> set (snd kg). kf x = fst kg" and "kf m = k"
  shows "\<forall>kg \<in> set (dict_update k [] (\<lambda>l. l @ [m]) al). \<forall>x \<in> set (snd kg). kf x = fst kg"
  using assms by (induction al) (force split: if_splits)+

lemma dict_update_append_nonempty:
  assumes "\<forall>kg \<in> set al. snd kg \<noteq> []"
  shows "\<forall>kg \<in> set (dict_update k [] (\<lambda>l. l @ [m]) al). snd kg \<noteq> []"
  using assms by (induction al) (force split: if_splits)+

lemma config_groups_invariant:
  "(\<forall>kg \<in> set (config_groups ms). snd kg \<noteq> [])
   \<and> (\<forall>kg \<in> set (config_groups ms). \<forall>x \<in> set (snd kg). config_key x = fst kg)
   \<and> set (concat (map snd (config_groups ms))) = set ms
   \<and> length (concat (map snd (config_groups ms))) = length ms"
proof -
  let ?step = "\<lambda>groups m. dict_update (config_key m) [] (\<lambda>l. l @ [m]) groups"
  have "(\<forall>kg \<in> set g. snd kg \<noteq> [])
        \<and> (\<forall>kg \<in> set g. \<forall>x \<in> set (snd kg). config_key x = fst kg)
        \<Longrightarrow> (\<forall>kg \<in> set (foldl ?step g ms). snd kg \<noteq> [])
          \<and> (\<forall>kg \<in> set (foldl ?step g ms). \<forall>x \<in> set (snd kg). config_key x = fst kg)
          \<and> set (concat (map snd (foldl ?step g ms))) = set (concat (map snd g)) \<union> set ms
          \<and> length (concat (map snd (foldl ?step g ms))) = length (concat (map snd g)) + length ms"
    for g
  proof (induction ms arbitrary: g)
    case Nil
    then show ?case by simp
  next
    case (Cons m ms)
    let ?g = "dict_update (config_key m) [] (\<lambda>l. l @ [m]) g"
    have 1: "\<forall>kg \<in> set ?g. snd kg \<noteq> []"
      using Cons.prems by (intro dict_update_append_nonempty) simp
    have 2: "\<forall>kg \<in> set ?g. \<forall>x \<in> set (snd kg). config_key x = fst kg"
      using Cons.prems by (intro dict_update_append_keys) simp_all
    note IH = Cons.IH [OF conjI [OF 1 2]]
    have members: "set (concat (map snd ?g)) \<union> set ms
                   = set (concat (map snd g)) \<union> set (m # ms)"
      unfolding dict_update_append_members by auto
    have len: "length (concat (map snd ?g)) + length ms
               = length (concat (map snd g)) + length (m # ms)"
      unfolding dict_update_append_length by simp
    show ?case
      unfolding foldl_Cons using IH unfolding members len by blast
  qed
  from this [of "[]"] show ?thesis by (simp add: config_groups_def)
qed

lemma peak_step_throughput:
  "(peak_throughput (peak_step st kc), peak_throughput_config (peak_step st kc),
    peak_throughput_measurement (peak_step st kc))
   = best_step throughput_fps
       (peak_throughput st, peak_throughput_config st, peak_throughput_measurement st) kc"
  by (simp add: peak_step_def best_step_def Let_def)

lemma peak_step_efficiency:
  "(peak_efficiency (peak_step st kc), peak_efficiency_config (peak_step st kc),
    peak_efficiency_measurement (peak_step st kc))
   = best_step efficiency_fps_per_watt
       (peak_efficiency st, peak_efficiency_config st, peak_efficiency_measurement st) kc"
  by (simp add: peak_step_def best_step_def Let_def)

lemma foldl_peak_step_throughput:
  "(peak_throughput (foldl peak_step st gs), peak_throughput_config (foldl peak_step st gs),
    peak_throughput_measurement (foldl peak_step st gs))
   = foldl (best_step throughput_fps)
       (peak_throughput st, peak_throughput_config st, peak_throughput_measurement st) gs"
  by (induction gs arbitrary: st) (simp_all add: peak_step_throughput [symmetric])

lemma foldl_peak_step_efficiency:
  "(peak_efficiency (foldl peak_step st gs), peak_efficiency_config (foldl peak_step st gs),
    peak_efficiency_measurement (foldl peak_step st gs))
   = foldl (best_step efficiency_fps_per_watt)
       (peak_efficiency st, peak_efficiency_config st, peak_efficiency_measurement st) gs"
  by (induction gs arbitrary: st) (simp_all add: peak_step_efficiency [symmetric])

lemma peak_throughput_result:
  "(peak_throughput (identify_peak_configurations ms),
    peak_throughput_config (identify_peak_configurations ms),
    peak_throughput_measurement (identify_peak_configurations ms))
   = (if \<exists>x \<in> set ms. 0 < throughput_fps x
      then (Max (throughput_fps ` set ms),
            map_option config_key
              (find (\<lambda>x. throughput_fps x = Max (throughput_fps ` set ms)) (iteration_order ms)),
            find (\<lambda>x. throughput_fps x = Max (throughput_fps ` set ms)) (iteration_order ms))
      else (0, None, None))"
proof -
  have inv: "\<forall>kg \<in> set (config_groups ms). snd kg \<noteq> []"
    "\<forall>kg \<in> set (config_groups ms). \<forall>x \<in> set (snd kg). config_key x = fst kg"
    and s: "set (concat (map snd (config_groups ms))) = set ms"
    using config_groups_invariant [of ms] by blast+
  have init: "(peak_throughput initial_peak, peak_throughput_config initial_peak,
               peak_throughput_measurement initial_peak) = (0, None, None)"
    by (simp add: initial_peak_def)
  show ?thesis
    unfolding identify_peak_configurations_def foldl_peak_step_throughput init
    by (rule foldl_best_step [OF inv, of throughput_fps 0, unfolded s,
          folded iteration_order_def])
qed

lemma peak_efficiency_result:
  "(peak_efficiency (identify_peak_configurations ms),
    peak_efficiency_config (identify_peak_configurations ms),
    peak_efficiency_measurement (identify_peak_configurations ms))
   = (if \<exists>x \<in> set ms. 0 < efficiency_fps_per_watt x
      then (Max (efficiency_fps_per_watt ` set ms),
            map_option config_key
              (find (\<lambda>x. efficiency_fps_per_watt x = Max (efficiency_fps_per_watt ` set ms))
                 (iteration_order ms)),
            find (\<lambda>x. efficiency_fps_per_watt x = Max (efficiency_fps_per_watt ` set ms))
              (iteration_order ms))
      else (0, None, None))"
proof -
  have inv: "\<forall>kg \<in> set (config_groups ms). snd kg \<noteq> []"
    "\<forall>kg \<in> set (config_groups ms). \<forall>x \<in> set (snd kg). config_key x = fst kg"
    and s: "set (concat (map snd (config_groups ms))) = set ms"
    using config_groups_invariant [of ms] by blast+
  have init: "(peak_efficiency initial_peak, peak_efficiency_config initial_peak,
               peak_efficiency_measurement initial_peak) = (0, None, None)"
    by (simp add: initial_peak_def)
  show ?thesis
    unfolding identify_peak_configurations_def foldl_peak_step_efficiency init
    by (rule foldl_best_step [OF inv, of efficiency_fps_per_watt 0, unfolded s,
          folded iteration_order_def])
qed

lemma config_groups_distinct: "distinct (map fst (config_groups ms))"
proof -
  have "distinct (map fst g) \<Longrightarrow>
        distinct (map fst (foldl (\<lambda>groups m. dict_update (config_key m) [] (\<lambda>l. l @ [m]) groups) g ms))"
    for g
    by (induction ms arbitrary: g) (simp_all add: dict_update_distinct)
  from this [of "[]"] show ?thesis by (simp add: config_groups_def)
qed

lemma series_max_attained:
  "rows \<noteq> [] \<Longrightarrow> \<exists>r \<in> set rows. series_max (map f rows) = Finite (f r)
       \<and> (\<forall>x \<in> set rows. f x \<le> f r)"
proof -
  assume ne: "rows \<noteq> []"
  then have "Max (set (map f rows)) \<in> set (map f rows)" by (intro Max_in) auto
  then obtain r where r: "r \<in> set rows" "f r = Max (set (map f rows))" by auto
  have "\<forall>x \<in> set rows. f x \<le> Max (set (map f rows))" by simp
  with r ne show ?thesis unfolding series_max_def by (metis map_is_Nil_conv)
qed

lemma sample_iteration_order:
  "iteration_order
     [sample_measurement ''resnet18'' 1 1 10 100 20 5,
      sample_measurement ''resnet18'' 1 1 10 150 37.5 4,
      sample_measurement ''resnet18'' 1 1 10 120 20 6]
   = [sample_measurement ''resnet18'' 1 1 10 100 20 5,
      sample_measurement ''resnet18'' 1 1 10 150 37.5 4,
      sample_measurement ''resnet18'' 1 1 10 120 20 6]"
  by (simp add: iteration_order_def config_groups_def config_key_def dict_get_def
        sample_measurement_def)

text \<open>The groups of the peak finder, in terms of the input.\<close>

lemma config_groups_eq:
  "config_groups ms
   = map (\<lambda>k. (k, filter (\<lambda>m. config_key m = k) ms)) (first_occurrences (map config_key ms))"
  unfolding config_groups_def by (rule group_append)

lemma config_groups_by_config:
  "map snd (config_groups ms)
   = map (\<lambda>c. filter (\<lambda>m. config_of m = c) ms) (first_occurrences (map config_of ms))"
proof -
  define kc :: "string \<times> int \<times> int \<Rightarrow> string"
    where "kc = (\<lambda>c. fst c @ ''_cores'' @ str_int (fst (snd c)) @ ''_batch'' @ str_int (snd (snd c)))"
  have key: "config_key m = kc (config_of m)" for m
    by (simp add: kc_def config_key_def config_of_def model_of_def cores_of_def batch_of_def)
  have kc_eq: "kc c = kc c' \<longleftrightarrow> c = c'" for c c'
  proof -
    have "kc c = kc c'
          \<longleftrightarrow> (fst c @ ''_cores'' @ str_int (fst (snd c))) @ ''_batch'' @ str_int (snd (snd c))
            = (fst c' @ ''_cores'' @ str_int (fst (snd c'))) @ ''_batch'' @ str_int (snd (snd c'))"
      by (simp add: kc_def)
    also have "\<dots> \<longleftrightarrow> fst c @ ''_cores'' @ str_int (fst (snd c))
                        = fst c' @ ''_cores'' @ str_int (fst (snd c'))
                      \<and> snd (snd c) = snd (snd c')"
      by (rule batch_key_inj)
    also have "\<dots> \<longleftrightarrow> c = c'"
      unfolding cores_key_inj by (auto simp: prod_eq_iff)
    finally show ?thesis .
  qed
  have inj: "inj_on kc (set (map config_of ms))"
    by (rule inj_onI) (simp add: kc_eq)
  have keys: "first_occurrences (map config_key ms) = map kc (first_occurrences (map config_of ms))"
  proof -
    have "map config_key ms = map kc (map config_of ms)" by (simp add: key)
    then show ?thesis unfolding first_occurrences_map_inj [OF inj, symmetric] by (rule arg_cong)
  qed
  have "map snd (config_groups ms)
        = map (\<lambda>k. filter (\<lambda>m. config_key m = k) ms) (first_occurrences (map config_key ms))"
    unfolding config_groups_eq by (simp add: comp_def)
  also have "\<dots> = map (\<lambda>c. filter (\<lambda>m. config_key m = kc c) ms) (first_occurrences (map config_of ms))"
    unfolding keys by (simp add: comp_def)
  also have "\<dots> = map (\<lambda>c. filter (\<lambda>m. config_of m = c) ms) (first_occurrences (map config_of ms))"
    unfolding key kc_eq ..
  finally show ?thesis .
qed

lemma sample_iteration_order_tie:
  "iteration_order
     [sample_measurement ''resnet18'' 1 1 10 100 20 5,
      sample_measurement ''resnet18'' 4 1 10 150 37.5 4,
      sample_measurement ''resnet18'' 1 1 10 150 30 5]
   = [sample_measurement ''resnet18'' 1 1 10 100 20 5,
      sample_measurement ''resnet18'' 1 1 10 150 30 5,
      sample_measurement ''resnet18'' 4 1 10 150 37.5 4]"
  by (simp add: iteration_order_def config_groups_def config_key_def dict_get_def
        sample_measurement_def str_int_def str_nat.simps digit_char_def)

subsection \<open>Peak finder: the two winners\<close>

text \<open>
  Claim C4, as stated: the peak finder identifies the measurement that attains the
  global maximum throughput and, independently, the one that attains the global maximum
  efficiency. The running best starts at 0 and is replaced on a strictly greater value
  only: for a single measurement of efficiency 0, which attains the maximum efficiency,
  no measurement and no configuration is identified.
\<close>

theorem C4_counterexample:
  "efficiency_fps_per_watt (sample_measurement ''resnet18'' 1 1 10 100 10 0)
     = Max (efficiency_fps_per_watt ` set [sample_measurement ''resnet18'' 1 1 10 100 10 0])
   \<and> peak_efficiency_measurement
       (identify_peak_configurations [sample_measurement ''resnet18'' 1 1 10 100 10 0]) = None
   \<and> peak_efficiency_config
       (identify_peak_configurations [sample_measurement ''resnet18'' 1 1 10 100 10 0]) = None"
  by (simp add: identify_peak_configurations_def config_groups_def peak_step_def
        initial_peak_def Let_def sample_measurement_def)

text \<open>
  Claim C4, amended. \<^verbatim>\<open>identify_peak_configurations\<close> groups the measurements by the
  key of their full configuration (model, cores, batch size): two measurements have the
  same key exactly when they have the same configuration, the groups have distinct keys,
  every member of a group has the group's key, and the groups are, in the order of the
  first occurrences of the configurations in the input, the measurements of each
  configuration in input order. The loop therefore visits the measurements
  configuration by configuration, in the order of each configuration's first record. If
  some throughput is positive, the peak throughput is the global maximum, the peak
  measurement is the first measurement in that order that attains it, and the peak
  configuration is that measurement's key; if none is positive, the peak is 0 and no
  configuration and no measurement is reported. The same holds, independently, for the
  efficiency. \<^verbatim>\<open>calculate_real_statistics\<close> reports, for a non-empty data frame, the
  maxima of the throughput and efficiency columns, each attained by some row.
\<close>

theorem C4_peak_finder:
  "(peak_throughput (identify_peak_configurations ms),
    peak_throughput_config (identify_peak_configurations ms),
    peak_throughput_measurement (identify_peak_configurations ms))
   = (if \<exists>x \<in> set ms. 0 < throughput_fps x
      then (Max (throughput_fps ` set ms),
            map_option config_key
              (find (\<lambda>x. throughput_fps x = Max (throughput_fps ` set ms)) (iteration_order ms)),
            find (\<lambda>x. throughput_fps x = Max (throughput_fps ` set ms)) (iteration_order ms))
      else (0, None, None))
   \<and> (peak_efficiency (identify_peak_configurations ms),
      peak_efficiency_config (identify_peak_configurations ms),
      peak_efficiency_measurement (identify_peak_configurations ms))
     = (if \<exists>x \<in> set ms. 0 < efficiency_fps_per_watt x
        then (Max (efficiency_fps_per_watt ` set ms),
              map_option config_key
                (find (\<lambda>x. efficiency_fps_per_watt x = Max (efficiency_fps_per_watt ` set ms))
                   (iteration_order ms)),
              find (\<lambda>x. efficiency_fps_per_watt x = Max (efficiency_fps_per_watt ` set ms))
                (iteration_order ms))
        else (0, None, None))
   \<and> iteration_order ms
       = concat (map (\<lambda>c. filter (\<lambda>m. config_of m = c) ms) (first_occurrences (map config_of ms)))
   \<and> map snd (config_groups ms)
       = map (\<lambda>c. filter (\<lambda>m. config_of m = c) ms) (first_occurrences (map config_of ms))
   \<and> (config_key a = config_key b \<longleftrightarrow> config_of a = config_of b)
   \<and> set (iteration_order ms) = set ms
   \<and> length (iteration_order ms) = length ms
   \<and> distinct (map fst (config_groups ms))
   \<and> (\<forall>kg \<in> set (config_groups ms). \<forall>x \<in> set (snd kg). config_key x = fst kg)
   \<and> (rows \<noteq> [] \<longrightarrow>
        (\<exists>r \<in> set rows. peak_throughput_fps (calculate_peak_performance rows)
                           = Finite (r_throughput_fps r)
            \<and> (\<forall>x \<in> set rows. r_throughput_fps x \<le> r_throughput_fps r))
        \<and> (\<exists>r \<in> set rows. peak_efficiency_fps_per_watt (calculate_peak_performance rows)
                           = Finite (r_efficiency_fps_per_watt r)
            \<and> (\<forall>x \<in> set rows. r_efficiency_fps_per_watt x \<le> r_efficiency_fps_per_watt r)))"
proof -
  have 1: "set (iteration_order ms) = set ms \<and> length (iteration_order ms) = length ms
           \<and> (\<forall>kg \<in> set (config_groups ms). \<forall>x \<in> set (snd kg). config_key x = fst kg)"
    unfolding iteration_order_def using config_groups_invariant [of ms] by blast
  have 2: "(\<exists>r \<in> set rows. peak_throughput_fps (calculate_peak_performance rows)
                           = Finite (r_throughput_fps r)
            \<and> (\<forall>x \<in> set rows. r_throughput_fps x \<le> r_throughput_fps r))
        \<and> (\<exists>r \<in> set rows. peak_efficiency_fps_per_watt (calculate_peak_performance rows)
                           = Finite (r_efficiency_fps_per_watt r)
            \<and> (\<forall>x \<in> set rows. r_efficiency_fps_per_watt x \<le> r_efficiency_fps_per_watt r))"
    if "rows \<noteq> []"
    using series_max_attained [OF that, of r_throughput_fps]
      series_max_attained [OF that, of r_efficiency_fps_per_watt]
    by (simp add: calculate_peak_performance_def)
  have 3: "iteration_order ms
       = concat (map (\<lambda>c. filter (\<lambda>m. config_of m = c) ms) (first_occurrences (map config_of ms)))"
    unfolding iteration_order_def config_groups_by_config ..
  show ?thesis
    using peak_throughput_result [of ms] peak_efficiency_result [of ms] 1 2 3
      config_groups_distinct [of ms] config_groups_by_config [of ms] config_key_eq [of a b]
    by blast
qed

text \<open>
  The instance of the specification: three measurements of one configuration with
  throughput and efficiency (100, 5), (150, 4) and (120, 6). The peak throughput 150 is
  at the second and the peak efficiency 6 at the third: two distinct winners. And a tie
  across groups: of the measurements with throughputs 100 (1 core), 150 (4 cores) and
  150 (1 core), the loop visits the third before the second, and the third is the peak
  measurement.
\<close>

theorem C4_witness:
  "peak_throughput (identify_peak_configurations
     [sample_measurement ''resnet18'' 1 1 10 100 20 5,
      sample_measurement ''resnet18'' 1 1 10 150 37.5 4,
      sample_measurement ''resnet18'' 1 1 10 120 20 6]) = 150
   \<and> peak_throughput_measurement (identify_peak_configurations
     [sample_measurement ''resnet18'' 1 1 10 100 20 5,
      sample_measurement ''resnet18'' 1 1 10 150 37.5 4,
      sample_measurement ''resnet18'' 1 1 10 120 20 6])
     = Some (sample_measurement ''resnet18'' 1 1 10 150 37.5 4)
   \<and> peak_efficiency (identify_peak_configurations
     [sample_measurement ''resnet18'' 1 1 10 100 20 5,
      sample_measurement ''resnet18'' 1 1 10 150 37.5 4,
      sample_measurement ''resnet18'' 1 1 10 120 20 6]) = 6
   \<and> peak_efficiency_measurement (identify_peak_configurations
     [sample_measurement ''resnet18'' 1 1 10 100 20 5,
      sample_measurement ''resnet18'' 1 1 10 150 37.5 4,
      sample_measurement ''resnet18'' 1 1 10 120 20 6])
     = Some (sample_measurement ''resnet18'' 1 1 10 120 20 6)
   \<and> sample_measurement ''resnet18'' 1 1 10 150 37.5 4
     \<noteq> sample_measurement ''resnet18'' 1 1 10 120 20 6
   \<and> iteration_order
       [sample_measurement ''resnet18'' 1 1 10 100 20 5,
        sample_measurement ''resnet18'' 4 1 10 150 37.5 4,
        sample_measurement ''resnet18'' 1 1 10 150 30 5]
     = [sample_measurement ''resnet18'' 1 1 10 100 20 5,
        sample_measurement ''resnet18'' 1 1 10 150 30 5,
        sample_measurement ''resnet18'' 4 1 10 150 37.5 4]
   \<and> peak_throughput_measurement (identify_peak_configurations
       [sample_measurement ''resnet18'' 1 1 10 100 20 5,
        sample_measurement ''resnet18'' 4 1 10 150 37.5 4,
        sample_measurement ''resnet18'' 1 1 10 150 30 5])
     = Some (sample_measurement ''resnet18'' 1 1 10 150 30 5)
   \<and> peak_throughput_config (identify_peak_configurations
       [sample_measurement ''resnet18'' 1 1 10 100 20 5,
        sample_measurement ''resnet18'' 4 1 10 150 37.5 4,
        sample_measurement ''resnet18'' 1 1 10 150 30 5])
     = Some ''resnet18_cores1_batch1''"
proof -
  have tp: "peak_throughput (identify_peak_configurations
     [sample_measurement ''resnet18'' 1 1 10 100 20 5,
      sample_measurement ''resnet18'' 1 1 10 150 37.5 4,
      sample_measurement ''resnet18'' 1 1 10 120 20 6]) = 150
   \<and> peak_throughput_measurement (identify_peak_configurations
     [sample_measurement ''resnet18'' 1 1 10 100 20 5,
      sample_measurement ''resnet18'' 1 1 10 150 37.5 4,
      sample_measurement ''resnet18'' 1 1 10 120 20 6])
     = Some (sample_measurement ''resnet18'' 1 1 10 150 37.5 4)"
    using C4_peak_finder [where ms =
       "[sample_measurement ''resnet18'' 1 1 10 100 20 5,
         sample_measurement ''resnet18'' 1 1 10 150 37.5 4,
         sample_measurement ''resnet18'' 1 1 10 120 20 6]" and rows = "[]"
       and a = undefined and b = undefined, THEN conjunct1]
    unfolding sample_iteration_order
    by (simp add: sample_measurement_def)
  have eff: "peak_efficiency (identify_peak_configurations
     [sample_measurement ''resnet18'' 1 1 10 100 20 5,
      sample_measurement ''resnet18'' 1 1 10 150 37.5 4,
      sample_measurement ''resnet18'' 1 1 10 120 20 6]) = 6
   \<and> peak_efficiency_measurement (identify_peak_configurations
     [sample_measurement ''resnet18'' 1 1 10 100 20 5,
      sample_measurement ''resnet18'' 1 1 10 150 37.5 4,
      sample_measurement ''resnet18'' 1 1 10 120 20 6])
     = Some (sample_measurement ''resnet18'' 1 1 10 120 20 6)"
    using C4_peak_finder [where ms =
       "[sample_measurement ''resnet18'' 1 1 10 100 20 5,
         sample_measurement ''resnet18'' 1 1 10 150 37.5 4,
         sample_measurement ''resnet18'' 1 1 10 120 20 6]" and rows = "[]"
       and a = undefined and b = undefined, THEN conjunct2, THEN conjunct1]
    unfolding sample_iteration_order
    by (simp add: sample_measurement_def)
  have ne: "sample_measurement ''resnet18'' 1 1 10 150 37.5 4
     \<noteq> sample_measurement ''resnet18'' 1 1 10 120 20 6"
    by (simp add: sample_measurement_def)
  have order: "iteration_order
       [sample_measurement ''resnet18'' 1 1 10 100 20 5,
        sample_measurement ''resnet18'' 4 1 10 150 37.5 4,
        sample_measurement ''resnet18'' 1 1 10 150 30 5]
     = [sample_measurement ''resnet18'' 1 1 10 100 20 5,
        sample_measurement ''resnet18'' 1 1 10 150 30 5,
        sample_measurement ''resnet18'' 4 1 10 150 37.5 4]"
    by (rule sample_iteration_order_tie)
  have tie: "peak_throughput_measurement (identify_peak_configurations
       [sample_measurement ''resnet18'' 1 1 10 100 20 5,
        sample_measurement ''resnet18'' 4 1 10 150 37.5 4,
        sample_measurement ''resnet18'' 1 1 10 150 30 5])
     = Some (sample_measurement ''resnet18'' 1 1 10 150 30 5)
   \<and> peak_throughput_config (identify_peak_configurations
       [sample_measurement ''resnet18'' 1 1 10 100 20 5,
        sample_measurement ''resnet18'' 4 1 10 150 37.5 4,
        sample_measurement ''resnet18'' 1 1 10 150 30 5])
     = Some ''resnet18_cores1_batch1''"
    using C4_peak_finder [where ms =
       "[sample_measurement ''resnet18'' 1 1 10 100 20 5,
         sample_measurement ''resnet18'' 4 1 10 150 37.5 4,
         sample_measurement ''resnet18'' 1 1 10 150 30 5]" and rows = "[]"
       and a = undefined and b = undefined, THEN conjunct1]
    unfolding order
    by (simp add: sample_measurement_def config_key_def dict_get_def core_keys)
  from tp eff ne order tie show ?thesis by blast
qed

end
